theory Spec2Isabelle
  imports Main "HOL-Library.Word"
begin

unbundle bit_operations_syntax

section \<open>Go values\<close>

text \<open>
  A Go \<open>byte\<close> is an 8-bit word. A Go \<open>string\<close> is an immutable sequence of bytes, and the
  conversions \<open>string(b)\<close> and \<open>[]byte(s)\<close> copy the bytes unchanged, so the strings of the
  client package are lists of bytes; \<open>bytes_of\<close> writes a literal.
\<close>

type_synonym byte = "8 word"
type_synonym uint16 = "16 word"
type_synonym uint32 = "32 word"
type_synonym gostring = "byte list"
type_synonym growth = "nat \<Rightarrow> nat \<Rightarrow> nat"

definition bytes_of :: "string \<Rightarrow> gostring" where
  "bytes_of s = map of_char s"

text \<open>
  Every way in which the functions of the client package stop without a result. \<open>Panic\<close> is
  a run-time panic (an index or a slice bound out of range): the other constructors are
  error values that the function returns.
\<close>

datatype error =
    Panic
  | ErrServer "byte list"
  | ErrProtocolVersion byte bool
  | ErrScrambleTerminator byte
  | ErrNoProtocol41
  | ErrNoTLS
  | ErrAuthPluginDataFiller byte
  | ErrPluginNameTerminator byte
  | ErrMalformPacket
  | ErrUnsupportedAuthPlugin gostring
  | ErrUnknownAuthPlugin gostring
  | ErrInvalidCollation gostring
  | ErrInvalidFlavor string
  | ErrExternal nat

text \<open>Sequencing of fallible steps: the first failure ends the function.\<close>

fun andThen :: "error + 'a \<Rightarrow> ('a \<Rightarrow> error + 'b) \<Rightarrow> error + 'b" where
  "andThen (Inl e) f = Inl e"
| "andThen (Inr x) f = f x"

subsection \<open>Byte slices\<close>

text \<open>
  A Go slice is a window on a backing array: \<open>arr\<close> holds the array from the slice's first
  element to the end of its capacity, \<open>len\<close> is the slice's length. Indexing is checked
  against the length, re-slicing \<open>s[lo:hi]\<close> against the capacity, so a re-slice can reach
  bytes beyond the length.
\<close>

record slice =
  arr :: "byte list"
  len :: nat

definition cap :: "slice \<Rightarrow> nat" where
  "cap s = length (arr s)"

definition bytes :: "slice \<Rightarrow> byte list" where
  "bytes s = take (len s) (arr s)"

definition nil :: slice where
  "nil = \<lparr>arr = [], len = 0\<rparr>"

definition index :: "slice \<Rightarrow> int \<Rightarrow> error + byte" where
  "index s i = (if 0 \<le> i \<and> i < int (len s) then Inr (arr s ! nat i) else Inl Panic)"

definition reslice :: "slice \<Rightarrow> int \<Rightarrow> int \<Rightarrow> error + slice" where
  "reslice s lo hi =
     (if 0 \<le> lo \<and> lo \<le> hi \<and> hi \<le> int (cap s)
      then Inr \<lparr>arr = drop (nat lo) (arr s), len = nat (hi - lo)\<rparr>
      else Inl Panic)"

text \<open>\<open>s[lo:]\<close>: the upper bound defaults to the length.\<close>

definition reslice_from :: "slice \<Rightarrow> int \<Rightarrow> error + slice" where
  "reslice_from s lo = reslice s lo (int (len s))"

text \<open>\<open>bytes.IndexByte\<close>: the index of the first occurrence, or -1.\<close>

fun IndexByte :: "byte list \<Rightarrow> byte \<Rightarrow> int" where
  "IndexByte [] c = - 1"
| "IndexByte (x # xs) c =
     (if x = c then 0 else (let r = IndexByte xs c in if r < 0 then - 1 else r + 1))"

text \<open>
  \<open>append(s, xs...)\<close>: in place when the capacity suffices, else into a new array whose
  capacity the run-time chooses (at least the required length) and whose spare bytes are
  zero.
\<close>

definition append_s :: "growth \<Rightarrow> slice \<Rightarrow> byte list \<Rightarrow> slice" where
  "append_s grow s xs =
     (let n = len s + length xs in
      if n \<le> cap s then \<lparr>arr = take (len s) (arr s) @ xs @ drop n (arr s), len = n\<rparr>
      else \<lparr>arr = take (len s) (arr s) @ xs @ replicate (grow (cap s) n - n) 0, len = n\<rparr>)"

text \<open>
  \<open>binary.LittleEndian.Uint16\<close> and \<open>Uint32\<close>: a bounds check on the last byte read, then
  the bytes from the least significant.
\<close>

definition Uint16 :: "slice \<Rightarrow> error + uint16" where
  "Uint16 b =
     andThen (index b 1) (\<lambda>b1.
     andThen (index b 0) (\<lambda>b0.
     Inr (ucast b0 OR push_bit 8 (ucast b1))))"

definition Uint32 :: "slice \<Rightarrow> error + uint32" where
  "Uint32 b =
     andThen (index b 3) (\<lambda>b3.
     andThen (index b 0) (\<lambda>b0.
     andThen (index b 1) (\<lambda>b1.
     andThen (index b 2) (\<lambda>b2.
     Inr (ucast b0 OR push_bit 8 (ucast b1) OR push_bit 16 (ucast b2) OR push_bit 24 (ucast b3))))))"

subsection \<open>Buffers written by position\<close>

text \<open>
  The response packet is built in a buffer made with \<open>make([]byte, n)\<close>, whose length and
  capacity agree: a list of bytes. \<open>copy_at src (pos, data)\<close> is the statement
  \<open>pos += copy(data[pos:], src)\<close>, which copies as many bytes as fit;
  \<open>store_at v (pos, data)\<close> is \<open>data[pos] = v; pos++\<close>.
\<close>

definition copy_at :: "byte list \<Rightarrow> nat \<times> byte list \<Rightarrow> error + (nat \<times> byte list)" where
  "copy_at src st =
     (case st of (pos, data) \<Rightarrow>
        if pos \<le> length data
        then (let n = min (length data - pos) (length src)
              in Inr (pos + n, take pos data @ take n src @ drop (pos + n) data))
        else Inl Panic)"

definition store_at :: "byte \<Rightarrow> nat \<times> byte list \<Rightarrow> error + (nat \<times> byte list)" where
  "store_at v st =
     (case st of (pos, data) \<Rightarrow>
        if pos < length data then Inr (pos + 1, data[pos := v]) else Inl Panic)"

section \<open>Package mysql: constants and helpers used by the client\<close>

text \<open>
  Modelled from the spec: the constants of package mysql (mysql/const.go is not among the
  sources). The capability bits are the ones that section 4.3 names, with the values of
  the wire protocol; the plugin names are the four supported plugins and the clear-password
  plugin of section 4.2; the flavors are the two identifiers of section 6.
\<close>

definition CLIENT_LONG_PASSWORD :: uint32 where "CLIENT_LONG_PASSWORD = push_bit 0 1"
definition CLIENT_FOUND_ROWS :: uint32 where "CLIENT_FOUND_ROWS = push_bit 1 1"
definition CLIENT_LONG_FLAG :: uint32 where "CLIENT_LONG_FLAG = push_bit 2 1"
definition CLIENT_CONNECT_WITH_DB :: uint32 where "CLIENT_CONNECT_WITH_DB = push_bit 3 1"
definition CLIENT_COMPRESS :: uint32 where "CLIENT_COMPRESS = push_bit 5 1"
definition CLIENT_LOCAL_FILES :: uint32 where "CLIENT_LOCAL_FILES = push_bit 7 1"
definition CLIENT_IGNORE_SPACE :: uint32 where "CLIENT_IGNORE_SPACE = push_bit 8 1"
definition CLIENT_PROTOCOL_41 :: uint32 where "CLIENT_PROTOCOL_41 = push_bit 9 1"
definition CLIENT_SSL :: uint32 where "CLIENT_SSL = push_bit 11 1"
definition CLIENT_TRANSACTIONS :: uint32 where "CLIENT_TRANSACTIONS = push_bit 13 1"
definition CLIENT_SECURE_CONNECTION :: uint32 where "CLIENT_SECURE_CONNECTION = push_bit 15 1"
definition CLIENT_MULTI_STATEMENTS :: uint32 where "CLIENT_MULTI_STATEMENTS = push_bit 16 1"
definition CLIENT_MULTI_RESULTS :: uint32 where "CLIENT_MULTI_RESULTS = push_bit 17 1"
definition CLIENT_PS_MULTI_RESULTS :: uint32 where "CLIENT_PS_MULTI_RESULTS = push_bit 18 1"
definition CLIENT_PLUGIN_AUTH :: uint32 where "CLIENT_PLUGIN_AUTH = push_bit 19 1"
definition CLIENT_CONNECT_ATTRS :: uint32 where "CLIENT_CONNECT_ATTRS = push_bit 20 1"
definition CLIENT_PLUGIN_AUTH_LENENC_CLIENT_DATA :: uint32 where
  "CLIENT_PLUGIN_AUTH_LENENC_CLIENT_DATA = push_bit 21 1"
definition CLIENT_ZSTD_COMPRESSION_ALGORITHM :: uint32 where
  "CLIENT_ZSTD_COMPRESSION_ALGORITHM = push_bit 26 1"
definition CLIENT_QUERY_ATTRIBUTES :: uint32 where "CLIENT_QUERY_ATTRIBUTES = push_bit 27 1"

definition ERR_HEADER :: byte where "ERR_HEADER = 0xff"
definition ClassicProtocolVersion :: byte where "ClassicProtocolVersion = 10"
definition XProtocolVersion :: byte where "XProtocolVersion = 11"

definition AUTH_NATIVE_PASSWORD :: gostring where
  "AUTH_NATIVE_PASSWORD = bytes_of ''mysql_native_password''"
definition AUTH_SHA256_PASSWORD :: gostring where
  "AUTH_SHA256_PASSWORD = bytes_of ''sha256_password''"
definition AUTH_CACHING_SHA2_PASSWORD :: gostring where
  "AUTH_CACHING_SHA2_PASSWORD = bytes_of ''caching_sha2_password''"
definition AUTH_CLEAR_PASSWORD :: gostring where
  "AUTH_CLEAR_PASSWORD = bytes_of ''mysql_clear_password''"
definition AUTH_MARIADB_ED25519 :: gostring where
  "AUTH_MARIADB_ED25519 = bytes_of ''client_ed25519''"

definition MySQLFlavor :: string where "MySQLFlavor = ''mysql''"
definition MariaDBFlavor :: string where "MariaDBFlavor = ''mariadb''"

text \<open>
  Modelled from the spec: the length-encoded integer of package mysql (mysql/util.go is not
  among the sources), "a variable-width binary encoding where the first byte(s) indicate how
  many subsequent bytes encode the value": one byte up to 250, and beyond it the
  multi-byte forms of the wire protocol (a marker 0xfc, 0xfd or 0xfe and the value in 2, 3
  or 8 bytes, least significant first). \<open>PutLengthEncodedInt\<close> returns the same encoding
  in a new slice; \<open>PutLengthEncodedString\<close> prefixes the bytes with their length.
\<close>

definition AppendLengthEncodedInteger :: "byte list \<Rightarrow> nat \<Rightarrow> byte list" where
  "AppendLengthEncodedInteger b n =
     (if n \<le> 250 then b @ [of_nat n]
      else if n \<le> 0xffff then b @ [0xfc, of_nat n, of_nat (drop_bit 8 n)]
      else if n \<le> 0xffffff then b @ [0xfd, of_nat n, of_nat (drop_bit 8 n), of_nat (drop_bit 16 n)]
      else b @ [0xfe, of_nat n, of_nat (drop_bit 8 n), of_nat (drop_bit 16 n),
                of_nat (drop_bit 24 n), of_nat (drop_bit 32 n), of_nat (drop_bit 40 n),
                of_nat (drop_bit 48 n), of_nat (drop_bit 56 n)])"

definition PutLengthEncodedInt :: "nat \<Rightarrow> byte list" where
  "PutLengthEncodedInt n = AppendLengthEncodedInteger [] n"

definition PutLengthEncodedString :: "byte list \<Rightarrow> byte list" where
  "PutLengthEncodedString b = PutLengthEncodedInt (length b) @ b"

section \<open>The connection and its environment\<close>

text \<open>
  What the handshake calls outside the client package and cannot be computed from its
  sources: the password hashes of package mysql, the collation table, the outcome of the
  TLS handshake and of a write on the transport, and the capacity that the Go run-time
  gives to an array allocated by \<open>append\<close> (old capacity, required length).
\<close>

record env =
  growslice :: growth
  CalcPassword :: "byte list \<Rightarrow> byte list \<Rightarrow> byte list"
  CalcCachingSha2Password :: "byte list \<Rightarrow> gostring \<Rightarrow> byte list"
  CalcEd25519Password :: "byte list \<Rightarrow> gostring \<Rightarrow> error + byte list"
  GetCollationByName :: "gostring \<Rightarrow> int option"
  DEFAULT_COLLATION_NAME :: gostring
  tlsHandshake :: "error option"
  transportWrite :: "byte list \<Rightarrow> error option"

text \<open>What has gone out on the transport, in order.\<close>

datatype event = Wrote "byte list" | TLSHandshake

text \<open>
  The fields of \<open>client.Conn\<close> that the handshake reads or writes. \<open>Sequence\<close> and \<open>secured\<close>
  belong to the embedded \<open>packet.Conn\<close> (its counter, and whether it runs over the TLS
  connection); \<open>tlsConfig\<close> is true when the pointer is not nil; \<open>attributes\<close> lists the
  entries of the map in the order in which the \<open>range\<close> loop of \<open>genAttributes\<close> visits them;
  \<open>wire\<close> records what the connection has sent.
\<close>

record Conn =
  Sequence :: byte
  secured :: bool
  wire :: "event list"
  serverVersion :: gostring
  connectionID :: uint32
  salt :: slice
  capability :: uint32
  status :: uint16
  authPluginName :: gostring
  tlsConfig :: bool
  proto :: gostring
  user :: gostring
  password :: gostring
  db :: gostring
  ccaps :: uint32
  clientExplicitOffCaps :: uint32
  attributes :: "(gostring \<times> gostring) list"
  collation :: gostring

section \<open>genAuthResponse\<close>

definition genAuthResponse :: "env \<Rightarrow> Conn \<Rightarrow> slice \<Rightarrow> error + (byte list \<times> bool)" where
  "genAuthResponse e c authData =
     (if authPluginName c = AUTH_NATIVE_PASSWORD then
        andThen (reslice authData 0 20)
          (\<lambda>scramble. Inr (CalcPassword e (bytes scramble) (password c), False))
      else if authPluginName c = AUTH_CACHING_SHA2_PASSWORD then
        Inr (CalcCachingSha2Password e (bytes authData) (password c), False)
      else if authPluginName c = AUTH_CLEAR_PASSWORD then
        Inr (password c, True)
      else if authPluginName c = AUTH_SHA256_PASSWORD then
        (if length (password c) = 0 then Inr ([], True)
         else if tlsConfig c \<or> proto c = bytes_of ''unix'' then Inr (password c, True)
         else Inr ([1], False))
      else if authPluginName c = AUTH_MARIADB_ED25519 then
        (if len authData \<noteq> 32 then Inl ErrMalformPacket
         else (case CalcEd25519Password e (bytes authData) (password c) of
                 Inl err \<Rightarrow> Inl err
               | Inr res \<Rightarrow> Inr (res, False)))
      else Inl (ErrUnsupportedAuthPlugin (authPluginName c)))"

section \<open>readInitialHandshake\<close>

definition defaultAuthPluginName :: gostring where
  "defaultAuthPluginName = AUTH_NATIVE_PASSWORD"

text \<open>
  The function is modelled in four parts, in the order of the source; positions are Go
  integers, since \<open>bytes.IndexByte\<close> may return -1.

  Lines 54 to 84: the server version, the connection id, the first 8 bytes of the scramble
  and the lower capability flags. The result is the connection and the position reached.
\<close>

definition readFixedPart :: "env \<Rightarrow> slice \<Rightarrow> Conn \<Rightarrow> error + (Conn \<times> int)" where
  "readFixedPart e data c =
     (let pos = 1 in
      andThen (reslice_from data pos) (\<lambda>tail.
      andThen (reslice data pos (IndexByte (bytes tail) 0x00 + 1)) (\<lambda>version.
      let c = c\<lparr>serverVersion := bytes version\<rparr>;
          pos = pos + int (len version) + 1 in
      andThen (reslice data pos (pos + 4)) (\<lambda>b.
      andThen (Uint32 b) (\<lambda>id.
      let c = c\<lparr>connectionID := id\<rparr>;
          pos = pos + 4 in
      andThen (reslice (salt c) 0 0) (\<lambda>salt0.
      andThen (reslice data pos (pos + 8)) (\<lambda>part1.
      let c = c\<lparr>salt := append_s (growslice e) salt0 (bytes part1)\<rparr>;
          pos = pos + 8 in
      andThen (index data pos) (\<lambda>z.
      if z \<noteq> 0 then Inl (ErrScrambleTerminator z)
      else
      let pos = pos + 1 in
      andThen (reslice data pos (pos + 2)) (\<lambda>b.
      andThen (Uint16 b) (\<lambda>lower.
      let c = c\<lparr>capability := ucast lower\<rparr> in
      if capability c AND CLIENT_PROTOCOL_41 = 0 then Inl ErrNoProtocol41
      else if capability c AND CLIENT_SSL = 0 \<and> tlsConfig c then Inl ErrNoTLS
      else
      let pos = pos + 2 in
      Inr (c, pos)))))))))))"

text \<open>Lines 108 to 126: the rest of the scramble, when the server has secure connection.\<close>

definition readScramblePart2 :: "env \<Rightarrow> slice \<Rightarrow> byte \<Rightarrow> Conn \<Rightarrow> int \<Rightarrow> error + (Conn \<times> int)" where
  "readScramblePart2 e data authPluginDataLen c pos =
     (if capability c AND CLIENT_SECURE_CONNECTION \<noteq> 0 then
        let rest = int (unat authPluginDataLen) - 8;
            rest = (if rest < 13 then 13 else rest) in
        andThen (reslice data pos (pos + rest - 1)) (\<lambda>authPluginDataPart2.
        Inr (c\<lparr>salt := append_s (growslice e) (salt c) (bytes authPluginDataPart2)\<rparr>, pos + rest))
      else Inr (c, pos))"

text \<open>Lines 128 to 136: the name of the plugin, when the server has plugin authentication.\<close>

definition readAuthPluginName :: "slice \<Rightarrow> Conn \<Rightarrow> int \<Rightarrow> error + Conn" where
  "readAuthPluginName data c pos =
     (if capability c AND CLIENT_PLUGIN_AUTH \<noteq> 0 then
        andThen (reslice_from data pos) (\<lambda>tail.
        andThen (reslice data pos (pos + IndexByte (bytes tail) 0x00)) (\<lambda>name.
        let c = c\<lparr>authPluginName := bytes name\<rparr>;
            pos = pos + int (length (authPluginName c)) in
        andThen (index data pos) (\<lambda>z.
        if z \<noteq> 0 then Inl (ErrPluginNameTerminator z) else Inr c)))
      else Inr c)"

text \<open>Lines 87 to 136: the body of \<open>if len(data) > pos\<close>.\<close>

definition readExtension :: "env \<Rightarrow> slice \<Rightarrow> Conn \<Rightarrow> int \<Rightarrow> error + Conn" where
  "readExtension e data c pos =
     (let pos = pos + 1 in
      andThen (reslice data pos (pos + 2)) (\<lambda>b.
      andThen (Uint16 b) (\<lambda>st.
      let c = c\<lparr>status := st\<rparr>;
          pos = pos + 2 in
      andThen (reslice data pos (pos + 2)) (\<lambda>b.
      andThen (Uint16 b) (\<lambda>upper.
      let c = c\<lparr>capability := push_bit 16 (ucast upper) OR capability c\<rparr>;
          pos = pos + 2 in
      andThen (index data pos) (\<lambda>authPluginDataLen.
      if capability c AND CLIENT_PLUGIN_AUTH = 0 \<and> authPluginDataLen > 0
      then Inl (ErrAuthPluginDataFiller authPluginDataLen)
      else
      let pos = pos + 1;
          pos = pos + 10 in
      andThen (readScramblePart2 e data authPluginDataLen c pos) (\<lambda>(c, pos).
      readAuthPluginName data c pos)))))))"

text \<open>
  The whole function. \<open>pkt\<close> is what \<open>c.ReadPacket()\<close> returned. The payload of an error
  packet goes to the decoder \<open>handleErrorPacket\<close>, outside these sources: its error is
  \<open>ErrServer\<close> with the payload. When the Go function fails it leaves the connection
  partly updated and the caller discards it: the model returns the error alone.
\<close>

definition readInitialHandshake :: "env \<Rightarrow> error + slice \<Rightarrow> Conn \<Rightarrow> error + Conn" where
  "readInitialHandshake e pkt c =
     andThen pkt (\<lambda>data.
     andThen (index data 0) (\<lambda>b0.
     if b0 = ERR_HEADER then Inl (ErrServer (bytes data))
     else if b0 \<noteq> ClassicProtocolVersion then Inl (ErrProtocolVersion b0 (b0 = XProtocolVersion))
     else
     andThen (readFixedPart e data c) (\<lambda>(c, pos).
     andThen (if int (len data) > pos then readExtension e data c pos else Inr c) (\<lambda>c.
     Inr (if authPluginName c = [] then c\<lparr>authPluginName := defaultAuthPluginName\<rparr> else c)))))"

section \<open>genAttributes\<close>

fun attrLoop :: "(gostring \<times> gostring) list \<Rightarrow> byte list \<Rightarrow> byte list" where
  "attrLoop [] attrData = attrData"
| "attrLoop ((k, v) # kvs) attrData =
     attrLoop kvs (attrData @ PutLengthEncodedString k @ PutLengthEncodedString v)"

definition genAttributes :: "Conn \<Rightarrow> byte list" where
  "genAttributes c =
     (if length (attributes c) = 0 then []
      else (let attrData = attrLoop (attributes c) []
            in PutLengthEncodedInt (length attrData) @ attrData))"

section \<open>writeAuthHandshake\<close>

definition supportedAuthPlugins :: "gostring list" where
  "supportedAuthPlugins =
     [AUTH_NATIVE_PASSWORD, AUTH_SHA256_PASSWORD, AUTH_CACHING_SHA2_PASSWORD, AUTH_MARIADB_ED25519]"

fun authPluginAllowedLoop :: "gostring list \<Rightarrow> gostring \<Rightarrow> bool" where
  "authPluginAllowedLoop [] pluginName = False"
| "authPluginAllowedLoop (p # ps) pluginName =
     (if pluginName = p then True else authPluginAllowedLoop ps pluginName)"

definition authPluginAllowed :: "gostring \<Rightarrow> bool" where
  "authPluginAllowed pluginName = authPluginAllowedLoop supportedAuthPlugins pluginName"

text \<open>
  Modelled from the spec: the packet-framing layer (package packet is not among the
  sources). \<open>WritePacket\<close> fills the four bytes that the caller reserved in front of the
  payload (the payload length in three bytes, least significant first, and the sequence
  number), writes the packet and advances the sequence counter by one; the caller's buffer
  keeps the header. \<open>NewConnWithTimeout\<close> makes a new framing connection over the given
  transport, its counter at the zero value.
\<close>

definition WritePacket :: "env \<Rightarrow> byte list \<Rightarrow> Conn \<Rightarrow> error + (Conn \<times> byte list)" where
  "WritePacket e data c =
     (if length data < 4 then Inl Panic
      else
        (let n = length data - 4;
             data = data[0 := of_nat n, 1 := of_nat (drop_bit 8 n), 2 := of_nat (drop_bit 16 n),
                         3 := Sequence c]
         in case transportWrite e data of
              Some err \<Rightarrow> Inl err
            | None \<Rightarrow> Inr (c\<lparr>Sequence := Sequence c + 1, wire := wire c @ [Wrote data]\<rparr>, data)))"

definition NewConnWithTimeout :: "Conn \<Rightarrow> Conn" where
  "NewConnWithTimeout c = c\<lparr>Sequence := 0, secured := True\<rparr>"

text \<open>
  Lines 211 to 230: the capability flags before the authentication response is known.
\<close>

definition clientCapability :: "Conn \<Rightarrow> uint32" where
  "clientCapability c =
     (let capability = CLIENT_PROTOCOL_41 OR CLIENT_SECURE_CONNECTION OR
            CLIENT_LONG_PASSWORD OR CLIENT_TRANSACTIONS OR CLIENT_PLUGIN_AUTH;
          capability = capability OR (Conn.capability c AND CLIENT_LONG_FLAG);
          capability = capability OR (Conn.capability c AND CLIENT_QUERY_ATTRIBUTES);
          capability = capability OR
            ((ccaps c AND CLIENT_FOUND_ROWS) OR (ccaps c AND CLIENT_IGNORE_SPACE) OR
             (ccaps c AND CLIENT_MULTI_STATEMENTS) OR (ccaps c AND CLIENT_MULTI_RESULTS) OR
             (ccaps c AND CLIENT_PS_MULTI_RESULTS) OR (ccaps c AND CLIENT_CONNECT_ATTRS) OR
             (ccaps c AND CLIENT_COMPRESS) OR (ccaps c AND CLIENT_ZSTD_COMPRESSION_ALGORITHM) OR
             (ccaps c AND CLIENT_LOCAL_FILES));
          capability = capability AND NOT (clientExplicitOffCaps c)
      in if tlsConfig c then capability OR CLIENT_SSL else capability)"

text \<open>
  Lines 304 to 321: the SSL request. The header packet is the first 36 bytes of the
  buffer; then the TLS handshake runs on the raw connection; then the framing connection
  is replaced and the saved counter put back.
\<close>

definition sslRequest :: "env \<Rightarrow> byte list \<Rightarrow> Conn \<Rightarrow> error + (Conn \<times> byte list)" where
  "sslRequest e data c =
     andThen (WritePacket e (take ((4 + 4 + 1 + 23) + 4) data) c) (\<lambda>(c, header).
     let data = header @ drop ((4 + 4 + 1 + 23) + 4) data;
         c = c\<lparr>wire := wire c @ [TLSHandshake]\<rparr> in
     case tlsHandshake e of
       Some err \<Rightarrow> Inl err
     | None \<Rightarrow>
         (let currentSequence = Sequence c;
              c = NewConnWithTimeout c;
              c = c\<lparr>Sequence := currentSequence\<rparr>
          in Inr (c, data)))"

text \<open>The loop of lines 324 to 327.\<close>

function filler :: "nat \<times> byte list \<Rightarrow> error + (nat \<times> byte list)" where
  "filler (pos, data) =
     (if pos < 13 + 23
      then (if pos < length data then filler (pos + 1, data[pos := 0]) else Inl Panic)
      else Inr (pos, data))"
  by pat_completeness auto
termination
  by (relation "measure (\<lambda>(pos, data). 36 - pos)") auto

declare filler.simps [simp del]

text \<open>Lines 323 to 364: the variable part of the packet, written from position 13.\<close>

definition writeBody ::
  "Conn \<Rightarrow> byte list \<Rightarrow> bool \<Rightarrow> byte list \<Rightarrow> byte list \<Rightarrow> byte list \<Rightarrow> error + byte list" where
  "writeBody c auth addNull authRespLEI attrData data =
     andThen (filler (13, data)) (\<lambda>st.
     andThen (if length (user c) > 0 then copy_at (user c) st else Inr st) (\<lambda>st.
     andThen (store_at 0x00 st) (\<lambda>st.
     andThen (copy_at authRespLEI st) (\<lambda>st.
     andThen (copy_at auth st) (\<lambda>st.
     andThen (if addNull then store_at 0x00 st else Inr st) (\<lambda>st.
     andThen (if length (db c) > 0 then andThen (copy_at (db c) st) (store_at 0x00) else Inr st) (\<lambda>st.
     andThen (copy_at (authPluginName c) st) (\<lambda>st.
     andThen (store_at 0x00 st) (\<lambda>st.
     andThen (if length attrData > 0 then copy_at attrData st else Inr st) (\<lambda>st.
     if ccaps c AND CLIENT_ZSTD_COMPRESSION_ALGORITHM > 0
     then andThen (store_at 0x03 st) (\<lambda>st'. Inr (snd st'))
     else Inr (snd st)))))))))))"

text \<open>
  Lines 211 to 273: the local variables when the buffer is allocated, in the order
  capability, auth, addNull, authRespLEI, length, attrData. Lengths are Go integers that
  count bytes in memory and cannot overflow here: natural numbers. The local variable
  \<open>length\<close> is \<open>length'\<close>.
\<close>

definition handshakeLocals ::
  "env \<Rightarrow> Conn \<Rightarrow> error + (uint32 \<times> byte list \<times> bool \<times> byte list \<times> nat \<times> byte list)" where
  "handshakeLocals e c =
     (let capability = clientCapability c in
      andThen (genAuthResponse e c (salt c)) (\<lambda>(auth, addNull).
      let authRespLEI = AppendLengthEncodedInteger [] (length auth);
          capability = (if length authRespLEI > 1
                        then capability OR CLIENT_PLUGIN_AUTH_LENENC_CLIENT_DATA else capability);
          length' = 4 + 4 + 1 + 23 + length (user c) + 1 + length authRespLEI + length auth + 21 + 1;
          length' = (if addNull then length' + 1 else length');
          (capability, length') =
            (if length (db c) > 0
             then (capability OR CLIENT_CONNECT_WITH_DB, length' + (length (db c) + 1))
             else (capability, length'));
          attrData = genAttributes c;
          (capability, length') =
            (if length attrData > 0
             then (capability OR CLIENT_CONNECT_ATTRS, length' + length attrData)
             else (capability, length'));
          length' = (if ccaps c AND CLIENT_ZSTD_COMPRESSION_ALGORITHM > 0 then length' + 1 else length')
      in Inr (capability, auth, addNull, authRespLEI, length', attrData)))"

text \<open>
  The whole function. The buffer has at least 59 bytes, so the writes at the constant
  positions 4 to 12 and the re-slice \<open>data[:36]\<close> are in range.
\<close>

definition writeAuthHandshake :: "env \<Rightarrow> Conn \<Rightarrow> error + Conn" where
  "writeAuthHandshake e c =
     (if \<not> authPluginAllowed (authPluginName c) then Inl (ErrUnknownAuthPlugin (authPluginName c))
      else
      andThen (handshakeLocals e c) (\<lambda>(capability, auth, addNull, authRespLEI, length', attrData).
      let data = replicate (length' + 4) 0;
          data = data[4 := ucast capability, 5 := ucast (drop_bit 8 capability),
                      6 := ucast (drop_bit 16 capability), 7 := ucast (drop_bit 24 capability)];
          data = data[8 := 0x00, 9 := 0x00, 10 := 0x00, 11 := 0x00];
          collationName = (if length (collation c) = 0 then DEFAULT_COLLATION_NAME e else collation c)
      in
      case GetCollationByName e collationName of
        None \<Rightarrow> Inl (ErrInvalidCollation collationName)
      | Some collationID \<Rightarrow>
          (let data = data[12 := of_int (collationID AND 0xff)] in
           andThen (if tlsConfig c then sslRequest e data c else Inr (c, data)) (\<lambda>(c, data).
           andThen (writeBody c auth addNull authRespLEI attrData data) (\<lambda>data.
           andThen (WritePacket e data c) (\<lambda>(c, data). Inr c))))))"

subsection \<open>The packets on the wire\<close>

text \<open>
  The four bytes that \<open>WritePacket\<close> puts in front of a payload of \<open>n\<close> bytes sent with
  sequence number \<open>seq\<close>.
\<close>

definition frameHeader :: "nat \<Rightarrow> byte \<Rightarrow> byte list" where
  "frameHeader n seq = [of_nat n, of_nat (drop_bit 8 n), of_nat (drop_bit 16 n), seq]"

text \<open>
  The sections of the handshake response in the order of section 4.3 of the specification.
  The fixed ones: the capability flags (4 bytes, least significant first), the
  max-packet-size (4 zero bytes), the collation (its low 8 bits) and 23 reserved zero bytes.
  The variable ones: the user name and a zero, the length prefix and the auth response,
  a zero when the generator asks for it, the database name and a zero when there is a
  database, the plugin name and a zero, the connection attributes, and the
  compression-level byte when zstd compression was requested.
\<close>

definition fixedSections :: "uint32 \<Rightarrow> int \<Rightarrow> byte list" where
  "fixedSections flags collationID =
     [ucast flags, ucast (drop_bit 8 flags), ucast (drop_bit 16 flags), ucast (drop_bit 24 flags)] @
     [0, 0, 0, 0] @ [of_int (collationID AND 0xff)] @ replicate 23 0"

definition variableSections :: "Conn \<Rightarrow> byte list \<Rightarrow> bool \<Rightarrow> byte list \<Rightarrow> byte list \<Rightarrow> byte list" where
  "variableSections c auth addNull authRespLEI attrData =
     user c @ [0] @ authRespLEI @ auth @ (if addNull then [0] else []) @
     (if db c \<noteq> [] then db c @ [0] else []) @
     authPluginName c @ [0] @ attrData @
     (if ccaps c AND CLIENT_ZSTD_COMPRESSION_ALGORITHM > 0 then [3] else [])"

text \<open>
  The capability bits that writeAuthHandshake sets after it has applied the exclusion set
  (lines 228 to 230, 242 to 246, 261 to 263 and 267 to 269).
\<close>

definition forcedCapability :: "Conn \<Rightarrow> byte list \<Rightarrow> uint32" where
  "forcedCapability c auth =
     (if tlsConfig c then CLIENT_SSL else 0) OR
     (if 250 < length auth then CLIENT_PLUGIN_AUTH_LENENC_CLIENT_DATA else 0) OR
     (if db c \<noteq> [] then CLIENT_CONNECT_WITH_DB else 0) OR
     (if attributes c \<noteq> [] then CLIENT_CONNECT_ATTRS else 0)"

section \<open>ParseGTIDSet\<close>

text \<open>
  The two flavor-specific parsers are not among the sources and are parameters. A Go result
  \<open>(GTIDSet, error)\<close> is a pair of options, \<open>None\<close> for \<open>nil\<close>.
\<close>

definition ParseGTIDSet ::
  "(string \<Rightarrow> 'g option \<times> error option) \<Rightarrow> (string \<Rightarrow> 'g option \<times> error option) \<Rightarrow>
   string \<Rightarrow> string \<Rightarrow> 'g option \<times> error option" where
  "ParseGTIDSet ParseMysqlGTIDSet ParseMariadbGTIDSet flavor s =
     (if flavor = MySQLFlavor then ParseMysqlGTIDSet s
      else if flavor = MariaDBFlavor then ParseMariadbGTIDSet s
      else (None, Some (ErrInvalidFlavor flavor)))"

section \<open>Concrete inputs\<close>

text \<open>
  An environment and a connection for evaluating the functions on concrete inputs. The
  hashes are placeholders of the right lengths; the capacities are the size classes of the
  Go allocator for small byte arrays.
\<close>

definition example_env :: env where
  "example_env =
     \<lparr>growslice = (\<lambda>old n. if n \<le> 8 then 8 else if n \<le> 16 then 16 else if n \<le> 24 then 24
                            else if n \<le> 32 then 32 else n),
      CalcPassword = (\<lambda>scramble pw. if pw = [] then [] else replicate 20 0xaa),
      CalcCachingSha2Password = (\<lambda>scramble pw. if pw = [] then [] else replicate 32 0xbb),
      CalcEd25519Password = (\<lambda>scramble pw. Inr (replicate 64 0xcc)),
      GetCollationByName = (\<lambda>name. if name = bytes_of ''utf8_general_ci'' then Some 33 else None),
      DEFAULT_COLLATION_NAME = bytes_of ''utf8_general_ci'',
      tlsHandshake = None,
      transportWrite = (\<lambda>data. None)\<rparr>"

definition example_conn :: Conn where
  "example_conn =
     \<lparr>Sequence = 1, secured = False, wire = [], serverVersion = [], connectionID = 0,
      salt = nil, capability = 0, status = 0, authPluginName = [], tlsConfig = False,
      proto = bytes_of ''tcp'', user = bytes_of ''root'', password = bytes_of ''secret'',
      db = [], ccaps = 0, clientExplicitOffCaps = 0, attributes = [], collation = []\<rparr>"

text \<open>
  Two greetings of the server: one of a current server (plugin authentication, secure
  connection, 21 bytes of scramble announced) and one that ends after the lower capability
  flags, without the secure-connection bit. \<open>slice_of\<close> is a slice without spare capacity.
\<close>

definition slice_of :: "byte list \<Rightarrow> slice" where
  "slice_of bs = \<lparr>arr = bs, len = length bs\<rparr>"

definition example_handshake :: "byte list" where
  "example_handshake =
     [10] @ bytes_of ''8.0.1'' @ [0] @ [7, 0, 0, 0] @ [1, 2, 3, 4, 5, 6, 7, 8] @ [0] @
     [0xff, 0xf7] @ [33] @ [2, 0] @ [0xff, 0xdf] @ [21] @ replicate 10 0 @
     [11, 12, 13, 14, 15, 16, 17, 18, 19, 20, 21, 22] @ [0] @
     bytes_of ''mysql_native_password'' @ [0]"

definition example_handshake_short :: "byte list" where
  "example_handshake_short =
     [10] @ bytes_of ''4.1.1'' @ [0] @ [7, 0, 0, 0] @ [1, 2, 3, 4, 5, 6, 7, 8] @ [0] @ [0x00, 0x02]"

text \<open>The connection after the first greeting has been read.\<close>

definition example_negotiated :: Conn where
  "example_negotiated =
     example_conn
       \<lparr>serverVersion := bytes_of ''8.0.1'', connectionID := 7,
        salt := \<lparr>arr = [1, 2, 3, 4, 5, 6, 7, 8, 11, 12, 13, 14, 15, 16, 17, 18, 19, 20, 21, 22,
                        0, 0, 0, 0],
                 len = 20\<rparr>,
        capability := 0xdffff7ff, status := 2, authPluginName := AUTH_NATIVE_PASSWORD\<rparr>"

text \<open>
  The connection after the second greeting has been read on it as well: line 67 re-uses the
  buffer of the first challenge, so the 8 bytes of the new challenge are followed, within
  the capacity, by bytes of the old one.
\<close>

definition example_reused :: Conn where
  "example_reused =
     example_negotiated
       \<lparr>serverVersion := bytes_of ''4.1.1'',
        salt := \<lparr>arr = [1, 2, 3, 4, 5, 6, 7, 8, 11, 12, 13, 14, 15, 16, 17, 18, 19, 20, 21, 22,
                        0, 0, 0, 0],
                 len = 8\<rparr>,
        capability := 0x200\<rparr>"

text \<open>
  Connections for writeAuthHandshake: the sha256-password plugin with an empty password; the
  connection attributes both requested and excluded; a password of 300 bytes sent in clear
  over TLS; and TLS configured.
\<close>

definition example_sha256_conn :: Conn where
  "example_sha256_conn =
     example_conn\<lparr>authPluginName := AUTH_SHA256_PASSWORD, password := [], user := bytes_of ''u''\<rparr>"

definition example_attrs_conn :: Conn where
  "example_attrs_conn =
     example_negotiated\<lparr>ccaps := CLIENT_CONNECT_ATTRS, clientExplicitOffCaps := CLIENT_CONNECT_ATTRS,
                        attributes := [(bytes_of ''a'', bytes_of ''b'')]\<rparr>"

definition example_long_conn :: Conn where
  "example_long_conn =
     example_negotiated\<lparr>authPluginName := AUTH_SHA256_PASSWORD, tlsConfig := True,
                        password := replicate 300 0x61\<rparr>"

definition example_tls_conn :: Conn where
  "example_tls_conn = example_negotiated\<lparr>tlsConfig := True\<rparr>"

section \<open>Slices and sequencing\<close>

lemma andThen_InrE:
  assumes "andThen m f = Inr y"
  obtains x where "m = Inr x" and "f x = Inr y"
  using assms by (cases m) auto

lemma IndexByte_absent: "c \<notin> set xs \<Longrightarrow> IndexByte xs c = - 1"
  by (induction xs) (auto simp: Let_def)

lemma bytes_reslice_from:
  "reslice_from data lo = Inr t \<Longrightarrow> bytes t = drop (nat lo) (bytes data)"
  by (auto simp: reslice_from_def reslice_def bytes_def cap_def drop_take nat_diff_distrib split: if_splits)

lemma reslice_InrD:
  assumes "reslice s lo hi = Inr t"
  shows "arr t = drop (nat lo) (arr s)" and "len t = nat (hi - lo)"
    and "0 \<le> lo" and "lo \<le> hi" and "hi \<le> int (cap s)"
  using assms by (auto simp: reslice_def split: if_splits)

lemma bytes_reslice:
  assumes "reslice s lo hi = Inr t"
  shows "bytes t = take (nat (hi - lo)) (drop (nat lo) (arr s))"
  using reslice_InrD [OF assms] by (simp add: bytes_def)

lemma length_bytes_reslice:
  assumes "reslice s lo hi = Inr t"
  shows "length (bytes t) = nat (hi - lo)"
  using reslice_InrD [OF assms] by (simp add: bytes_def cap_def)

lemma len_append_s: "len (append_s g s xs) = len s + length xs"
  by (simp add: append_s_def Let_def)

lemma bytes_append_s: "len s \<le> cap s \<Longrightarrow> bytes (append_s g s xs) = bytes s @ xs"
  by (simp add: append_s_def Let_def bytes_def cap_def)

lemma append_s_wf: "len s \<le> cap s \<Longrightarrow> len (append_s g s xs) \<le> cap (append_s g s xs)"
  by (auto simp: append_s_def Let_def cap_def)

section \<open>Properties of readInitialHandshake\<close>

lemma readFixedPart_InrD:
  assumes "readFixedPart e data c = Inr (c1, pos)"
  shows "pos = int (length (serverVersion c1)) + 17"
    and "len (salt c1) = 8"
    and "bytes (salt c1) = take 8 (drop (length (serverVersion c1) + 6) (arr data))"
    and "len (salt c1) \<le> cap (salt c1)"
    and "cap (salt c) < 8 \<Longrightarrow> cap (salt c1) = 8 + (growslice e (cap (salt c)) 8 - 8)"
proof -
  from assms obtain tail version b id salt0 part1 where
    v: "reslice data 1 (IndexByte (bytes tail) 0x00 + 1) = Inr version"
    and s0: "reslice (salt c) 0 0 = Inr salt0"
    and p1: "reslice data (6 + int (len version)) (14 + int (len version)) = Inr part1"
    and c1: "serverVersion c1 = bytes version"
       "salt c1 = append_s (growslice e) salt0 (bytes part1)"
    and pos: "pos = 17 + int (len version)"
    by (auto simp: readFixedPart_def Let_def elim!: andThen_InrE split: if_splits)
  have lv: "length (bytes version) = len version"
    using length_bytes_reslice [OF v] reslice_InrD(2) [OF v] by simp
  have l0: "len salt0 = 0" "len salt0 \<le> cap salt0" "bytes salt0 = []"
    using reslice_InrD(2) [OF s0] by (simp_all add: bytes_def)
  show "pos = int (length (serverVersion c1)) + 17"
    using pos c1 lv by simp
  show "len (salt c1) = 8"
    using c1 l0 length_bytes_reslice [OF p1] by (simp add: len_append_s)
  show "bytes (salt c1) = take 8 (drop (length (serverVersion c1) + 6) (arr data))"
    using c1 l0 bytes_reslice [OF p1] lv by (simp add: bytes_append_s nat_add_distrib add.commute)
  show "len (salt c1) \<le> cap (salt c1)"
    using c1 l0 by (simp add: append_s_wf)
  show "cap (salt c1) = 8 + (growslice e (cap (salt c)) 8 - 8)" if "cap (salt c) < 8"
    using that c1 l0 length_bytes_reslice [OF p1] reslice_InrD(1) [OF s0]
    by (simp add: append_s_def cap_def)
qed


lemma readScramblePart2_InrD:
  assumes "readScramblePart2 e data l c pos = Inr (c2, pos2)"
  shows "serverVersion c2 = serverVersion c" and "capability c2 = capability c"
    and "authPluginName c2 = authPluginName c"
    and "capability c AND CLIENT_SECURE_CONNECTION = 0 \<Longrightarrow> salt c2 = salt c"
    and "capability c AND CLIENT_SECURE_CONNECTION \<noteq> 0 \<Longrightarrow>
           len (salt c2) = len (salt c) + nat (max 13 (int (unat l) - 8) - 1)"
    and "capability c AND CLIENT_SECURE_CONNECTION \<noteq> 0 \<Longrightarrow> len (salt c) \<le> cap (salt c) \<Longrightarrow>
           bytes (salt c2) =
             bytes (salt c) @ take (nat (max 13 (int (unat l) - 8) - 1)) (drop (nat pos) (arr data))"
proof -
  show "serverVersion c2 = serverVersion c" and "capability c2 = capability c"
    and "authPluginName c2 = authPluginName c"
    and "capability c AND CLIENT_SECURE_CONNECTION = 0 \<Longrightarrow> salt c2 = salt c"
    using assms
    by (auto simp: readScramblePart2_def Let_def elim!: andThen_InrE split: if_splits)
  assume sec: "capability c AND CLIENT_SECURE_CONNECTION \<noteq> 0"
  define rest where "rest = max 13 (int (unat l) - 8)"
  have "\<exists>part2. reslice data pos (pos + rest - 1) = Inr part2 \<and>
          salt c2 = append_s (growslice e) (salt c) (bytes part2)"
    using assms sec
    by (auto simp: readScramblePart2_def Let_def rest_def max_def elim!: andThen_InrE split: if_splits)
  then obtain part2 where
    r: "reslice data pos (pos + rest - 1) = Inr part2"
    and s: "salt c2 = append_s (growslice e) (salt c) (bytes part2)"
    by blast
  have n: "nat (pos + rest - 1 - pos) = nat (rest - 1)"
    by simp
  show "len (salt c2) = len (salt c) + nat (max 13 (int (unat l) - 8) - 1)"
    using s length_bytes_reslice [OF r] n by (simp add: len_append_s rest_def)
  show "bytes (salt c2) =
          bytes (salt c) @ take (nat (max 13 (int (unat l) - 8) - 1)) (drop (nat pos) (arr data))"
    if "len (salt c) \<le> cap (salt c)"
    using that s bytes_reslice [OF r] n by (simp add: bytes_append_s rest_def)
qed

lemma readAuthPluginName_InrD:
  assumes "readAuthPluginName data c pos = Inr c3"
  shows "serverVersion c3 = serverVersion c" and "capability c3 = capability c"
    and "salt c3 = salt c"
  using assms
  by (auto simp: readAuthPluginName_def Let_def elim!: andThen_InrE split: if_splits)

lemma readExtension_InrE:
  assumes "readExtension e data c pos = Inr c3"
  obtains st and upper :: uint16 and l c2 pos2 where "index data (pos + 5) = Inr l"
    and "readScramblePart2 e data l
           (c\<lparr>status := st, capability := push_bit 16 (ucast upper) OR capability c\<rparr>) (pos + 16)
         = Inr (c2, pos2)"
    and "readAuthPluginName data c2 pos2 = Inr c3"
  using assms
  by (auto simp: readExtension_def Let_def add.commute elim!: andThen_InrE split: if_splits)

lemma readExtension_InrD:
  assumes "readExtension e data c pos = Inr c3"
  shows "serverVersion c3 = serverVersion c"
    and "capability c3 AND CLIENT_SECURE_CONNECTION = 0 \<Longrightarrow> salt c3 = salt c"
    and "capability c3 AND CLIENT_SECURE_CONNECTION \<noteq> 0 \<Longrightarrow>
           \<exists>l. index data (pos + 5) = Inr l \<and>
               len (salt c3) = len (salt c) + nat (max 13 (int (unat l) - 8) - 1) \<and>
               (len (salt c) \<le> cap (salt c) \<longrightarrow>
                  bytes (salt c3) =
                    bytes (salt c) @ take (nat (max 13 (int (unat l) - 8) - 1)) (drop (nat (pos + 16)) (arr data)))"
proof -
  from assms obtain st and upper :: uint16 and l c2 pos2 where
    l: "index data (pos + 5) = Inr l"
    and p2: "readScramblePart2 e data l
               (c\<lparr>status := st, capability := push_bit 16 (ucast upper) OR capability c\<rparr>) (pos + 16)
             = Inr (c2, pos2)"
    and n: "readAuthPluginName data c2 pos2 = Inr c3"
    by (rule readExtension_InrE)
  note A = readScramblePart2_InrD [OF p2]
  note B = readAuthPluginName_InrD [OF n]
  show "serverVersion c3 = serverVersion c"
    using A(1) B(1) by simp
  show "capability c3 AND CLIENT_SECURE_CONNECTION = 0 \<Longrightarrow> salt c3 = salt c"
    using A(2) A(4) B(2) B(3) by simp
  show "capability c3 AND CLIENT_SECURE_CONNECTION \<noteq> 0 \<Longrightarrow>
           \<exists>l. index data (pos + 5) = Inr l \<and>
               len (salt c3) = len (salt c) + nat (max 13 (int (unat l) - 8) - 1) \<and>
               (len (salt c) \<le> cap (salt c) \<longrightarrow>
                  bytes (salt c3) =
                    bytes (salt c) @ take (nat (max 13 (int (unat l) - 8) - 1)) (drop (nat (pos + 16)) (arr data)))"
    using l A(2) A(5) A(6) B(2) B(3) by simp
qed

lemma readInitialHandshake_InrD:
  assumes "readInitialHandshake e (Inr data) c = Inr c'"
  shows "(int (length (serverVersion c')) + 17 < int (len data) \<and>
          capability c' AND CLIENT_SECURE_CONNECTION \<noteq> 0) \<or>
         (len (salt c') = 8 \<and>
          bytes (salt c') = take 8 (drop (length (serverVersion c') + 6) (arr data)) \<and>
          (cap (salt c) < 8 \<longrightarrow> cap (salt c') = 8 + (growslice e (cap (salt c)) 8 - 8)))"
    and "int (length (serverVersion c')) + 17 < int (len data) \<Longrightarrow>
         capability c' AND CLIENT_SECURE_CONNECTION \<noteq> 0 \<Longrightarrow>
           \<exists>l. index data (int (length (serverVersion c')) + 22) = Inr l \<and>
               len (salt c') = 8 + nat (max 13 (int (unat l) - 8) - 1) \<and>
               bytes (salt c') =
                 take 8 (drop (length (serverVersion c') + 6) (arr data)) @
                 take (nat (max 13 (int (unat l) - 8) - 1))
                   (drop (length (serverVersion c') + 33) (arr data))"
proof -
  from assms obtain c1 pos c3 where
    f: "readFixedPart e data c = Inr (c1, pos)"
    and x: "(if int (len data) > pos then readExtension e data c1 pos else Inr c1) = Inr c3"
    and c': "serverVersion c' = serverVersion c3" "salt c' = salt c3" "capability c' = capability c3"
    by (auto simp: readInitialHandshake_def elim!: andThen_InrE split: if_splits)
  note F = readFixedPart_InrD [OF f]
  show "(int (length (serverVersion c')) + 17 < int (len data) \<and>
          capability c' AND CLIENT_SECURE_CONNECTION \<noteq> 0) \<or>
         (len (salt c') = 8 \<and>
          bytes (salt c') = take 8 (drop (length (serverVersion c') + 6) (arr data)) \<and>
          (cap (salt c) < 8 \<longrightarrow> cap (salt c') = 8 + (growslice e (cap (salt c)) 8 - 8)))"
  proof (cases "int (len data) > pos")
    case True
    with x have r: "readExtension e data c1 pos = Inr c3" by simp
    show ?thesis
      using readExtension_InrD(1,2) [OF r] F c' True by auto
  next
    case False
    with x have "c3 = c1" by simp
    then show ?thesis using F c' by simp
  qed
  assume ext: "int (length (serverVersion c')) + 17 < int (len data)"
    and sec: "capability c' AND CLIENT_SECURE_CONNECTION \<noteq> 0"
  have "int (len data) > pos"
  proof (rule ccontr)
    assume "\<not> int (len data) > pos"
    with x have "c3 = c1" by simp
    with ext F(1) c' \<open>\<not> int (len data) > pos\<close> show False by simp
  qed
  with x have r: "readExtension e data c1 pos = Inr c3" by simp
  from readExtension_InrD(3) [OF r] sec c' obtain l where
    l: "index data (pos + 5) = Inr l"
      "len (salt c3) = len (salt c1) + nat (max 13 (int (unat l) - 8) - 1)"
      "bytes (salt c3) =
         bytes (salt c1) @ take (nat (max 13 (int (unat l) - 8) - 1)) (drop (nat (pos + 16)) (arr data))"
    using F(4) by auto
  have v: "serverVersion c' = serverVersion c1"
    using readExtension_InrD(1) [OF r] c' by simp
  have n: "nat (pos + 16) = length (serverVersion c') + 33"
    using F(1) v by simp
  show "\<exists>l. index data (int (length (serverVersion c')) + 22) = Inr l \<and>
               len (salt c') = 8 + nat (max 13 (int (unat l) - 8) - 1) \<and>
               bytes (salt c') =
                 take 8 (drop (length (serverVersion c') + 6) (arr data)) @
                 take (nat (max 13 (int (unat l) - 8) - 1))
                   (drop (length (serverVersion c') + 33) (arr data))"
    using l F v c' n by (auto simp: add.commute)
qed



text \<open>
  C5. When a greeting is parsed, its auth-plugin-data-length byte (at offset 22 after the
  server version) is 21 and the merged capabilities have the secure-connection bit, the
  challenge is 20 bytes long: the 8 bytes of part 1 followed by 12 bytes of part 2. The
  13th byte of part 2 is skipped.
\<close>

theorem readInitialHandshake_challenge_21:
  assumes "readInitialHandshake e (Inr data) c = Inr c'"
    and "index data (int (length (serverVersion c')) + 22) = Inr 21"
    and "capability c' AND CLIENT_SECURE_CONNECTION \<noteq> 0"
  shows "len (salt c') = 20 \<and>
         bytes (salt c') =
           take 8 (drop (length (serverVersion c') + 6) (arr data)) @
           take 12 (drop (length (serverVersion c') + 33) (arr data))"
proof -
  have "int (length (serverVersion c')) + 17 < int (len data)"
    using assms(2) by (simp add: index_def split: if_splits)
  from readInitialHandshake_InrD(2) [OF assms(1) this assms(3)] assms(2)
  show ?thesis by auto
qed

theorem readInitialHandshake_challenge_21_witness:
  "readInitialHandshake example_env (Inr (slice_of example_handshake)) example_conn =
     Inr example_negotiated \<and>
   len (salt example_negotiated) = 20 \<and>
   bytes (salt example_negotiated) =
     [1, 2, 3, 4, 5, 6, 7, 8] @ [11, 12, 13, 14, 15, 16, 17, 18, 19, 20, 21, 22]"
proof -
  have ok: "readInitialHandshake example_env (Inr (slice_of example_handshake)) example_conn =
              Inr example_negotiated"
    by code_simp
  have l: "index (slice_of example_handshake) (int (length (serverVersion example_negotiated)) + 22) = Inr 21"
    by code_simp
  have s: "capability example_negotiated AND CLIENT_SECURE_CONNECTION \<noteq> 0"
    by code_simp
  have "take 8 (drop (length (serverVersion example_negotiated) + 6) (arr (slice_of example_handshake))) @
        take 12 (drop (length (serverVersion example_negotiated) + 33) (arr (slice_of example_handshake))) =
        [1, 2, 3, 4, 5, 6, 7, 8] @ [11, 12, 13, 14, 15, 16, 17, 18, 19, 20, 21, 22]"
    by code_simp
  with readInitialHandshake_challenge_21 [OF ok l s] ok show ?thesis
    by simp
qed

lemma readAuthPluginName_unterminated:
  assumes "capability c AND CLIENT_PLUGIN_AUTH \<noteq> 0"
    and "0 \<notin> set (drop (nat pos) (bytes data))"
  shows "readAuthPluginName data c pos = Inl Panic"
proof (cases "reslice_from data pos")
  case (Inl err)
  then have "err = Panic"
    by (auto simp: reslice_from_def reslice_def split: if_splits)
  with Inl assms(1) show ?thesis
    by (simp add: readAuthPluginName_def)
next
  case (Inr t)
  then have "bytes t = drop (nat pos) (bytes data)"
    by (rule bytes_reslice_from)
  with assms(2) have "IndexByte (bytes t) 0 = - 1"
    by (simp add: IndexByte_absent)
  then have "reslice data pos (pos + IndexByte (bytes t) 0) = Inl Panic"
    by (simp add: reslice_def)
  with Inr assms(1) show ?thesis
    by (simp add: readAuthPluginName_def)
qed

lemma readFixedPart_unterminated:
  assumes "0 \<notin> set (drop 1 (bytes data))"
  shows "readFixedPart e data c = Inl Panic"
proof (cases "reslice_from data 1")
  case (Inl err)
  then have "err = Panic"
    by (auto simp: reslice_from_def reslice_def split: if_splits)
  with Inl show ?thesis
    by (simp add: readFixedPart_def)
next
  case (Inr t)
  then have "bytes t = drop 1 (bytes data)"
    using bytes_reslice_from [of data 1 t] by simp
  with assms have "IndexByte (bytes t) 0 = - 1"
    by (simp add: IndexByte_absent)
  then have "reslice data 1 (IndexByte (bytes t) 0 + 1) = Inl Panic"
    by (simp add: reslice_def)
  with Inr show ?thesis
    by (simp add: readFixedPart_def)
qed

text \<open>
  C2. The claim is that a greeting whose server version, or whose plugin name when the
  server has plugin authentication, has no zero byte up to the end of the buffer fails with
  an error and does not crash. The code panics in both cases: \<open>bytes.IndexByte\<close> returns
  -1 and the re-slice that follows has its upper bound below its lower bound.
\<close>

theorem readInitialHandshake_unterminated:
  "(index data 0 = Inr ClassicProtocolVersion \<and> 0 \<notin> set (drop 1 (bytes data)) \<longrightarrow>
      readInitialHandshake e (Inr data) c = Inl Panic) \<and>
   (capability c AND CLIENT_PLUGIN_AUTH \<noteq> 0 \<and> 0 \<notin> set (drop (nat pos) (bytes data)) \<longrightarrow>
      readAuthPluginName data c pos = Inl Panic)"
  by (simp add: readInitialHandshake_def readFixedPart_unterminated readAuthPluginName_unterminated
      ERR_HEADER_def ClassicProtocolVersion_def)

theorem readInitialHandshake_unterminated_witness:
  "readInitialHandshake example_env (Inr (slice_of [10, 0x38, 0x2e, 0x30])) example_conn = Inl Panic \<and>
   readInitialHandshake example_env (Inr (slice_of (butlast example_handshake))) example_conn = Inl Panic"
proof -
  have "readInitialHandshake example_env (Inr (slice_of [10, 0x38, 0x2e, 0x30])) example_conn = Inl Panic"
    using readInitialHandshake_unterminated
            [where data = "slice_of [10, 0x38, 0x2e, 0x30]" and e = example_env and c = example_conn]
    by (simp add: slice_of_def index_def bytes_def ClassicProtocolVersion_def)
  moreover have "readInitialHandshake example_env (Inr (slice_of (butlast example_handshake))) example_conn = Inl Panic"
    by code_simp
  ultimately show ?thesis by simp
qed


lemma readFixedPart_cap:
  assumes "readFixedPart e data c = Inr (c1, pos)"
  shows "cap (salt c1) = (if 8 \<le> cap (salt c) then cap (salt c) else 8 + (growslice e (cap (salt c)) 8 - 8))"
proof -
  from assms obtain tail version b id salt0 part1 where
    v: "reslice data 1 (IndexByte (bytes tail) 0x00 + 1) = Inr version"
    and s0: "reslice (salt c) 0 0 = Inr salt0"
    and p1: "reslice data (6 + int (len version)) (14 + int (len version)) = Inr part1"
    and c1: "serverVersion c1 = bytes version"
       "salt c1 = append_s (growslice e) salt0 (bytes part1)"
    and pos: "pos = 17 + int (len version)"
    by (auto simp: readFixedPart_def Let_def elim!: andThen_InrE split: if_splits)
  have l0: "len salt0 = 0"
    using reslice_InrD(2) [OF s0] by simp
  show ?thesis
    using c1 l0 length_bytes_reslice [OF p1] reslice_InrD(1) [OF s0]
    by (simp add: append_s_def cap_def)
qed

lemma readInitialHandshake_short_cap:
  assumes "readInitialHandshake e (Inr data) c = Inr c'"
    and "capability c' AND CLIENT_SECURE_CONNECTION = 0"
  shows "cap (salt c') = (if 8 \<le> cap (salt c) then cap (salt c) else 8 + (growslice e (cap (salt c)) 8 - 8))"
proof -
  from assms(1) obtain c1 pos c3 where
    f: "readFixedPart e data c = Inr (c1, pos)"
    and x: "(if int (len data) > pos then readExtension e data c1 pos else Inr c1) = Inr c3"
    and c': "salt c' = salt c3" "capability c' = capability c3"
    by (auto simp: readInitialHandshake_def elim!: andThen_InrE split: if_splits)
  have "salt c3 = salt c1"
  proof (cases "int (len data) > pos")
    case True
    with x have r: "readExtension e data c1 pos = Inr c3" by simp
    show ?thesis
      using readExtension_InrD(1,2) [OF r] c' assms(2) by auto
  next
    case False
    with x show ?thesis by simp
  qed
  then show ?thesis
    using readFixedPart_cap [OF f] c' by simp
qed

text \<open>
  C10. The claim is that genAuthResponse with the native-password plugin is free of panics
  only when the challenge is at least 20 bytes long, and so panics after a greeting without
  the secure-connection bit. Go checks the re-slice authData[:20] against the capacity of
  the slice, not against its length. On a connection whose challenge buffer has 24 bytes
  from an earlier greeting, a greeting without the secure-connection bit leaves a challenge
  of 8 bytes in that buffer, and genAuthResponse returns the hash of these 8 bytes followed
  by 12 bytes of the earlier challenge.
\<close>

theorem genAuthResponse_native_password_short_challenge:
  "readInitialHandshake example_env (Inr (slice_of example_handshake_short)) example_negotiated =
     Inr example_reused \<and>
   capability example_reused AND CLIENT_SECURE_CONNECTION = 0 \<and>
   authPluginName example_reused = AUTH_NATIVE_PASSWORD \<and>
   len (salt example_reused) = 8 \<and>
   cap (salt example_reused) = 24 \<and>
   genAuthResponse example_env example_reused (salt example_reused) =
     Inr (replicate 20 0xaa, False) \<and>
   genAuthResponse (example_env\<lparr>CalcPassword := (\<lambda>scramble pw. scramble)\<rparr>)
       example_reused (salt example_reused) =
     Inr ([1, 2, 3, 4, 5, 6, 7, 8, 11, 12, 13, 14, 15, 16, 17, 18, 19, 20, 21, 22], False)"
proof -
  have "readInitialHandshake example_env (Inr (slice_of example_handshake_short)) example_negotiated =
          Inr example_reused"
    by code_simp
  moreover have "capability example_reused AND CLIENT_SECURE_CONNECTION = 0"
    by code_simp
  moreover have "authPluginName example_reused = AUTH_NATIVE_PASSWORD"
    "len (salt example_reused) = 8" "cap (salt example_reused) = 24"
    by (simp_all add: example_reused_def example_negotiated_def cap_def)
  moreover have "genAuthResponse example_env example_reused (salt example_reused) =
     Inr (replicate 20 0xaa, False)"
    by code_simp
  moreover have "genAuthResponse (example_env\<lparr>CalcPassword := (\<lambda>scramble pw. scramble)\<rparr>)
       example_reused (salt example_reused) =
     Inr ([1, 2, 3, 4, 5, 6, 7, 8, 11, 12, 13, 14, 15, 16, 17, 18, 19, 20, 21, 22], False)"
    by (simp add: genAuthResponse_def example_reused_def example_negotiated_def reslice_def
          bytes_def cap_def)
  ultimately show ?thesis
    by simp
qed

text \<open>
  C10, amended. With the native-password plugin, genAuthResponse re-slices the challenge to
  20 bytes without a check: it panics exactly when the capacity of the challenge is below
  20, and a challenge of at least 20 bytes is hashed on its first 20 bytes. A greeting
  without the secure-connection bit leaves a challenge of 8 bytes, in the challenge buffer
  of the connection when its capacity is at least 8 and in a newly allocated one otherwise;
  genAuthResponse then panics exactly when the capacity of that buffer is below 20. It does
  on a connection whose challenge buffer was empty and for which the run-time allocates
  fewer than 20 bytes.
\<close>

theorem genAuthResponse_native_password_20:
  "(authPluginName c = AUTH_NATIVE_PASSWORD \<longrightarrow>
      genAuthResponse e c authData =
        (if 20 \<le> cap authData
         then Inr (CalcPassword e (take 20 (arr authData)) (password c), False)
         else Inl Panic)) \<and>
   (authPluginName c = AUTH_NATIVE_PASSWORD \<and> 20 \<le> len authData \<and> len authData \<le> cap authData \<longrightarrow>
      genAuthResponse e c authData = Inr (CalcPassword e (take 20 (bytes authData)) (password c), False)) \<and>
   (readInitialHandshake e (Inr data) c0 = Inr c \<and> capability c AND CLIENT_SECURE_CONNECTION = 0 \<longrightarrow>
      len (salt c) = 8 \<and>
      cap (salt c) = (if 8 \<le> cap (salt c0) then cap (salt c0)
                      else 8 + (growslice e (cap (salt c0)) 8 - 8))) \<and>
   (readInitialHandshake e (Inr data) c0 = Inr c \<and> capability c AND CLIENT_SECURE_CONNECTION = 0 \<and>
    authPluginName c = AUTH_NATIVE_PASSWORD \<longrightarrow>
      (genAuthResponse e c (salt c) = Inl Panic \<longleftrightarrow>
         (if 8 \<le> cap (salt c0) then cap (salt c0)
          else 8 + (growslice e (cap (salt c0)) 8 - 8)) < 20)) \<and>
   (readInitialHandshake e (Inr data) c0 = Inr c \<and> capability c AND CLIENT_SECURE_CONNECTION = 0 \<and>
    salt c0 = nil \<and> growslice e 0 8 < 20 \<and> authPluginName c = AUTH_NATIVE_PASSWORD \<longrightarrow>
      genAuthResponse e c (salt c) = Inl Panic)"
proof -
  have native: "genAuthResponse e c a =
      (if 20 \<le> cap a then Inr (CalcPassword e (take 20 (arr a)) (password c), False) else Inl Panic)"
    if "authPluginName c = AUTH_NATIVE_PASSWORD" for a
    using that by (simp add: genAuthResponse_def reslice_def bytes_def)
  have short: "len (salt c) = 8 \<and>
      cap (salt c) = (if 8 \<le> cap (salt c0) then cap (salt c0)
                      else 8 + (growslice e (cap (salt c0)) 8 - 8))"
    if "readInitialHandshake e (Inr data) c0 = Inr c" and "capability c AND CLIENT_SECURE_CONNECTION = 0"
    using readInitialHandshake_InrD(1) [OF that(1)] readInitialHandshake_short_cap [OF that] that(2)
    by simp
  have iff: "genAuthResponse e c (salt c) = Inl Panic \<longleftrightarrow>
         (if 8 \<le> cap (salt c0) then cap (salt c0)
          else 8 + (growslice e (cap (salt c0)) 8 - 8)) < 20"
    if "readInitialHandshake e (Inr data) c0 = Inr c" and "capability c AND CLIENT_SECURE_CONNECTION = 0"
      and "authPluginName c = AUTH_NATIVE_PASSWORD"
    using short [OF that(1,2)] native [OF that(3), of "salt c"] by auto
  have panic: "genAuthResponse e c (salt c) = Inl Panic"
    if "readInitialHandshake e (Inr data) c0 = Inr c" and "capability c AND CLIENT_SECURE_CONNECTION = 0"
      and "salt c0 = nil" and "growslice e 0 8 < 20" and "authPluginName c = AUTH_NATIVE_PASSWORD"
    using iff [OF that(1,2,5)] that(3,4) by (simp add: nil_def cap_def)
  show ?thesis
    using native short iff panic by (simp add: bytes_def)
qed

theorem genAuthResponse_native_password_20_witness:
  "readInitialHandshake example_env (Inr (slice_of example_handshake_short)) example_conn =
     Inr (example_conn\<lparr>serverVersion := bytes_of ''4.1.1'', connectionID := 7,
                        salt := slice_of [1, 2, 3, 4, 5, 6, 7, 8], capability := 0x200,
                        authPluginName := AUTH_NATIVE_PASSWORD\<rparr>) \<and>
   genAuthResponse example_env
     (example_conn\<lparr>serverVersion := bytes_of ''4.1.1'', connectionID := 7,
                   salt := slice_of [1, 2, 3, 4, 5, 6, 7, 8], capability := 0x200,
                   authPluginName := AUTH_NATIVE_PASSWORD\<rparr>)
     (slice_of [1, 2, 3, 4, 5, 6, 7, 8]) = Inl Panic \<and>
   genAuthResponse example_env example_negotiated (salt example_negotiated) =
     Inr (replicate 20 0xaa, False) \<and>
   readInitialHandshake example_env (Inr (slice_of example_handshake_short)) example_negotiated =
     Inr example_reused \<and>
   cap (salt example_reused) = 24 \<and>
   genAuthResponse example_env example_reused (salt example_reused) \<noteq> Inl Panic"
proof -
  let ?c = "example_conn\<lparr>serverVersion := bytes_of ''4.1.1'', connectionID := 7,
                        salt := slice_of [1, 2, 3, 4, 5, 6, 7, 8], capability := 0x200,
                        authPluginName := AUTH_NATIVE_PASSWORD\<rparr>"
  have ok: "readInitialHandshake example_env (Inr (slice_of example_handshake_short)) example_conn = Inr ?c"
    by code_simp
  have sec: "capability ?c AND CLIENT_SECURE_CONNECTION = 0"
    by code_simp
  have fresh: "salt example_conn = nil" "growslice example_env 0 8 < 20" "authPluginName ?c = AUTH_NATIVE_PASSWORD"
    by (simp_all add: example_conn_def example_env_def)
  have "genAuthResponse example_env ?c (salt ?c) = Inl Panic"
    using genAuthResponse_native_password_20
            [where c = ?c and e = example_env and ?c0.0 = example_conn
               and data = "slice_of example_handshake_short" and authData = "salt ?c"]
          ok sec fresh
    by blast
  then have p: "genAuthResponse example_env ?c (slice_of [1, 2, 3, 4, 5, 6, 7, 8]) = Inl Panic"
    by simp
  have n: "genAuthResponse example_env example_negotiated (salt example_negotiated) =
     Inr (replicate 20 0xaa, False)"
    by code_simp
  have ok2: "readInitialHandshake example_env (Inr (slice_of example_handshake_short)) example_negotiated =
          Inr example_reused"
    by code_simp
  have sec2: "capability example_reused AND CLIENT_SECURE_CONNECTION = 0"
    by code_simp
  have r: "authPluginName example_reused = AUTH_NATIVE_PASSWORD"
    "cap (salt example_negotiated) = 24" "cap (salt example_reused) = 24"
    by (simp_all add: example_reused_def example_negotiated_def cap_def)
  have "genAuthResponse example_env example_reused (salt example_reused) = Inl Panic \<longleftrightarrow>
          (if 8 \<le> cap (salt example_negotiated) then cap (salt example_negotiated)
           else 8 + (growslice example_env (cap (salt example_negotiated)) 8 - 8)) < 20"
    using genAuthResponse_native_password_20
            [where c = example_reused and e = example_env and ?c0.0 = example_negotiated
               and data = "slice_of example_handshake_short" and authData = "salt example_reused"]
          ok2 sec2 r(1)
    by blast
  then have q: "genAuthResponse example_env example_reused (salt example_reused) \<noteq> Inl Panic"
    unfolding r(2) by simp
  show ?thesis
    using ok p n ok2 r(3) q by blast
qed

section \<open>Properties of genAuthResponse\<close>

text \<open>
  C6. With the sha256-password plugin, an empty password gives an empty response and asks
  for the trailing zero; a non-empty password without TLS on a transport other than unix
  gives the single byte 0x01 and no trailing zero.
\<close>

theorem genAuthResponse_sha256_password:
  assumes "authPluginName c = AUTH_SHA256_PASSWORD"
  shows "(password c = [] \<longrightarrow> genAuthResponse e c authData = Inr ([], True)) \<and>
         (password c \<noteq> [] \<and> \<not> tlsConfig c \<and> proto c \<noteq> bytes_of ''unix'' \<longrightarrow>
            genAuthResponse e c authData = Inr ([0x01], False))"
  using assms
  by (simp add: genAuthResponse_def AUTH_SHA256_PASSWORD_def AUTH_NATIVE_PASSWORD_def
      AUTH_CACHING_SHA2_PASSWORD_def AUTH_CLEAR_PASSWORD_def bytes_of_def)

theorem genAuthResponse_sha256_password_witness:
  "genAuthResponse example_env
     (example_conn\<lparr>authPluginName := AUTH_SHA256_PASSWORD, password := []\<rparr>) nil = Inr ([], True) \<and>
   genAuthResponse example_env
     (example_conn\<lparr>authPluginName := AUTH_SHA256_PASSWORD\<rparr>) nil = Inr ([0x01], False)"
  using genAuthResponse_sha256_password
          [where c = "example_conn\<lparr>authPluginName := AUTH_SHA256_PASSWORD, password := []\<rparr>"
             and e = example_env and authData = nil]
        genAuthResponse_sha256_password
          [where c = "example_conn\<lparr>authPluginName := AUTH_SHA256_PASSWORD\<rparr>"
             and e = example_env and authData = nil]
  by (simp add: example_conn_def bytes_of_def)

text \<open>
  C7. With the mariadb-ed25519 plugin, a challenge whose length is not 32 fails with
  ErrMalformPacket, whatever the signature primitive of the environment is: the result
  does not depend on it.
\<close>

theorem genAuthResponse_ed25519_length:
  assumes "authPluginName c = AUTH_MARIADB_ED25519" and "len authData \<noteq> 32"
  shows "genAuthResponse (e\<lparr>CalcEd25519Password := sign\<rparr>) c authData = Inl ErrMalformPacket"
  using assms
  by (simp add: genAuthResponse_def AUTH_SHA256_PASSWORD_def AUTH_NATIVE_PASSWORD_def
      AUTH_CACHING_SHA2_PASSWORD_def AUTH_CLEAR_PASSWORD_def AUTH_MARIADB_ED25519_def
      bytes_of_def)

theorem genAuthResponse_ed25519_length_witness:
  "genAuthResponse (example_env\<lparr>CalcEd25519Password := (\<lambda>scramble pw. Inl Panic)\<rparr>)
     (example_conn\<lparr>authPluginName := AUTH_MARIADB_ED25519\<rparr>)
     \<lparr>arr = replicate 31 0x41, len = 31\<rparr> = Inl ErrMalformPacket"
  using genAuthResponse_ed25519_length
          [where c = "example_conn\<lparr>authPluginName := AUTH_MARIADB_ED25519\<rparr>"
             and authData = "\<lparr>arr = replicate 31 0x41, len = 31\<rparr>" and e = example_env
             and sign = "\<lambda>scramble pw. Inl Panic"]
  by simp

section \<open>Properties of writeAuthHandshake\<close>

lemmas caps_defs =
  CLIENT_LONG_PASSWORD_def CLIENT_FOUND_ROWS_def CLIENT_LONG_FLAG_def CLIENT_CONNECT_WITH_DB_def
  CLIENT_COMPRESS_def CLIENT_LOCAL_FILES_def CLIENT_IGNORE_SPACE_def CLIENT_PROTOCOL_41_def
  CLIENT_SSL_def CLIENT_TRANSACTIONS_def CLIENT_SECURE_CONNECTION_def CLIENT_MULTI_STATEMENTS_def
  CLIENT_MULTI_RESULTS_def CLIENT_PS_MULTI_RESULTS_def CLIENT_PLUGIN_AUTH_def
  CLIENT_CONNECT_ATTRS_def CLIENT_PLUGIN_AUTH_LENENC_CLIENT_DATA_def
  CLIENT_ZSTD_COMPRESSION_ALGORITHM_def CLIENT_QUERY_ATTRIBUTES_def

lemma lenenc_iff_bit: "x AND CLIENT_PLUGIN_AUTH_LENENC_CLIENT_DATA \<noteq> 0 \<longleftrightarrow> bit x 21"
  unfolding CLIENT_PLUGIN_AUTH_LENENC_CLIENT_DATA_def
  by (rule bit_iff_and_push_bit_not_eq_0 [symmetric])

lemma bit_21_clientCapability: "\<not> bit (clientCapability c) 21"
  by (simp add: clientCapability_def Let_def caps_defs bit_simps)

lemma length_AppendLengthEncodedInteger:
  "length (AppendLengthEncodedInteger [] n) = (if n \<le> 250 then 1 else if n \<le> 0xffff then 3 else if n \<le> 0xffffff then 4 else 9)"
  by (simp add: AppendLengthEncodedInteger_def)

lemma lei_gt1_iff: "Suc 0 < length (AppendLengthEncodedInteger [] n) \<longleftrightarrow> 250 < n"
  by (simp add: length_AppendLengthEncodedInteger)

lemma authPluginAllowed_iff:
  "authPluginAllowed name \<longleftrightarrow>
     name = AUTH_NATIVE_PASSWORD \<or> name = AUTH_SHA256_PASSWORD \<or>
     name = AUTH_CACHING_SHA2_PASSWORD \<or> name = AUTH_MARIADB_ED25519"
  by (auto simp: authPluginAllowed_def supportedAuthPlugins_def)

lemma authPluginAllowed_length: "authPluginAllowed name \<Longrightarrow> length name \<le> 21"
  by (auto simp: authPluginAllowed_iff AUTH_NATIVE_PASSWORD_def AUTH_SHA256_PASSWORD_def
      AUTH_CACHING_SHA2_PASSWORD_def AUTH_MARIADB_ED25519_def bytes_of_def)

lemma excluded_bits: "((x AND NOT off) OR f) AND off = f AND off" for x :: uint32
  by (auto simp: bit_eq_iff bit_simps)

lemma clientCapability_excluded:
  "clientCapability c AND clientExplicitOffCaps c =
     (if tlsConfig c then CLIENT_SSL else 0) AND clientExplicitOffCaps c"
  by (simp add: clientCapability_def Let_def excluded_bits)
     (simp add: bit_eq_iff bit_simps)

lemma genAttributes_empty_iff: "genAttributes c = [] \<longleftrightarrow> attributes c = []"
  by (simp add: genAttributes_def Let_def PutLengthEncodedInt_def AppendLengthEncodedInteger_def)

lemma handshakeLocals_InrD:
  assumes "handshakeLocals e c = Inr (flags, auth, addNull, lei, length', attrData)"
  shows "genAuthResponse e c (salt c) = Inr (auth, addNull)"
    and "lei = AppendLengthEncodedInteger [] (length auth)"
    and "attrData = genAttributes c"
    and "flags =
           clientCapability c OR
           (if 250 < length auth then CLIENT_PLUGIN_AUTH_LENENC_CLIENT_DATA else 0) OR
           (if db c \<noteq> [] then CLIENT_CONNECT_WITH_DB else 0) OR
           (if attrData \<noteq> [] then CLIENT_CONNECT_ATTRS else 0)"
    and "length' + length (authPluginName c) =
           32 + length (variableSections c auth addNull lei attrData) + 21"
proof -
  obtain auth0 addNull0 where g: "genAuthResponse e c (salt c) = Inr (auth0, addNull0)"
    using assms by (cases "genAuthResponse e c (salt c)") (auto simp: handshakeLocals_def)
  have "handshakeLocals e c = Inr
     (clientCapability c OR
           (if 250 < length auth0 then CLIENT_PLUGIN_AUTH_LENENC_CLIENT_DATA else 0) OR
           (if db c \<noteq> [] then CLIENT_CONNECT_WITH_DB else 0) OR
           (if genAttributes c \<noteq> [] then CLIENT_CONNECT_ATTRS else 0),
      auth0, addNull0, AppendLengthEncodedInteger [] (length auth0),
      53 + length (variableSections c auth0 addNull0 (AppendLengthEncodedInteger [] (length auth0)) (genAttributes c))
         - length (authPluginName c),
      genAttributes c)"
    unfolding handshakeLocals_def g
    by (simp add: Let_def variableSections_def lei_gt1_iff or.assoc)
  with assms have eq: "flags = clientCapability c OR
           (if 250 < length auth0 then CLIENT_PLUGIN_AUTH_LENENC_CLIENT_DATA else 0) OR
           (if db c \<noteq> [] then CLIENT_CONNECT_WITH_DB else 0) OR
           (if genAttributes c \<noteq> [] then CLIENT_CONNECT_ATTRS else 0)"
      "auth = auth0" "addNull = addNull0" "lei = AppendLengthEncodedInteger [] (length auth0)"
      "length' = 53 + length (variableSections c auth0 addNull0 (AppendLengthEncodedInteger [] (length auth0)) (genAttributes c))
         - length (authPluginName c)"
      "attrData = genAttributes c"
    by auto
  show "genAuthResponse e c (salt c) = Inr (auth, addNull)"
    and "lei = AppendLengthEncodedInteger [] (length auth)"
    and "attrData = genAttributes c"
    and "flags =
           clientCapability c OR
           (if 250 < length auth then CLIENT_PLUGIN_AUTH_LENENC_CLIENT_DATA else 0) OR
           (if db c \<noteq> [] then CLIENT_CONNECT_WITH_DB else 0) OR
           (if attrData \<noteq> [] then CLIENT_CONNECT_ATTRS else 0)"
    and "length' + length (authPluginName c) =
           32 + length (variableSections c auth addNull lei attrData) + 21"
    using g unfolding eq by (simp_all add: variableSections_def)
qed

lemma filler_from:
  "pos \<le> 36 \<Longrightarrow> 36 \<le> length data \<Longrightarrow>
     filler (pos, data) = Inr (36, take pos data @ replicate (36 - pos) 0 @ drop 36 data)"
proof (induction "36 - pos" arbitrary: pos data)
  case 0
  then show ?case by (subst filler.simps) simp
next
  case (Suc k)
  then have lt: "pos < 36" and k: "k = 36 - (pos + 1)" by simp_all
  have "filler (pos, data) = filler (pos + 1, data[pos := 0])"
    using lt Suc.prems by (simp add: filler.simps [of pos data])
  also have "\<dots> = Inr (36, take (pos + 1) (data[pos := 0]) @ replicate (36 - (pos + 1)) 0 @ drop 36 (data[pos := 0]))"
    using Suc.hyps(1) [OF k] lt Suc.prems by simp
  also have "take (pos + 1) (data[pos := 0]) = take pos data @ [0]"
    using lt Suc.prems by (simp add: take_Suc_conv_app_nth)
  also have "drop 36 (data[pos := 0]) = drop 36 data"
    using lt by simp
  also have "(take pos data @ [0]) @ replicate (36 - (pos + 1)) 0 @ drop 36 data =
             take pos data @ replicate (36 - pos) 0 @ drop 36 data"
    using lt by (simp add: replicate_app_Cons_same Suc_diff_Suc flip: replicate_Suc)
  finally show ?case .
qed

lemma writeBody_layout:
  assumes P: "length P = 13"
    and m: "m = length (variableSections c auth addNull lei attrData) + pad"
  shows "writeBody c auth addNull lei attrData (P @ replicate (23 + m) 0) =
           Inr (P @ replicate 23 0 @ variableSections c auth addNull lei attrData @ replicate pad 0)"
proof -
  define buf :: "byte list \<Rightarrow> nat \<Rightarrow> nat \<times> byte list"
    where "buf p k = (length p, p @ replicate k 0)" for p k
  define nullp :: "byte list" where "nullp = (if addNull then [0] else [])"
  define dbp where "dbp = (if db c \<noteq> [] then db c @ [0] else [])"
  define zp :: "byte list" where
    "zp = (if ccaps c AND CLIENT_ZSTD_COMPRESSION_ALGORITHM > 0 then [3] else [])"
  have cp: "copy_at src (buf p k) = Inr (buf (p @ src) (k - length src))"
    if "length src \<le> k" for src p k
    using that by (simp add: copy_at_def buf_def min_def Let_def)
  have st: "store_at v (buf p k) = Inr (buf (p @ [v]) (k - 1))" if "0 < k" for v p k
    using that by (cases k) (simp_all add: store_at_def buf_def list_update_append)
  have cpif: "(if src \<noteq> [] then copy_at src (buf p k) else Inr (buf p k)) =
                Inr (buf (p @ src) (k - length src))"
    if "length src \<le> k" for src p k
    using that by (simp add: cp)
  have nullif: "(if addNull then store_at 0 (buf p k) else Inr (buf p k)) =
                Inr (buf (p @ nullp) (k - length nullp))"
    if "length nullp \<le> k" for p k
    using that by (simp add: st nullp_def split: if_splits)
  have dbif: "(if db c \<noteq> [] then andThen (copy_at (db c) (buf p k)) (store_at 0)
               else Inr (buf p k)) = Inr (buf (p @ dbp) (k - length dbp))"
    if "length dbp \<le> k" for p k
    using that by (simp add: st cp dbp_def split: if_splits)
  have zif: "(if ccaps c AND CLIENT_ZSTD_COMPRESSION_ALGORITHM > 0
              then andThen (store_at 0x03 (buf p k)) (\<lambda>st'. Inr (snd st'))
              else Inr (snd (buf p k))) = Inr (p @ zp @ replicate (k - length zp) 0)"
    if "length zp \<le> k" for p k
    using that by (cases "ccaps c AND CLIENT_ZSTD_COMPRESSION_ALGORITHM > 0")
      (simp_all add: st zp_def, simp_all add: buf_def)
  have vs: "variableSections c auth addNull lei attrData =
              user c @ [0] @ lei @ auth @ nullp @ dbp @ authPluginName c @ [0] @ attrData @ zp"
    by (simp add: variableSections_def nullp_def dbp_def zp_def)
  have f: "filler (13, P @ replicate (23 + m) 0) = Inr (buf (P @ replicate 23 0) m)"
    using P by (simp add: filler_from buf_def replicate_add)
  show ?thesis
    unfolding writeBody_def f vs
    using m [unfolded vs]
    by (simp add: cp st cpif nullif dbif zif)
qed

lemma update_first_four:
  "4 \<le> length xs \<Longrightarrow> xs[0 := a, 1 := b, 2 := c, 3 := d] = [a, b, c, d] @ drop 4 xs"
  by (auto simp: eval_nat_numeral Suc_le_length_iff)

lemma WritePacket_eq:
  assumes "4 \<le> length data"
  shows "WritePacket e data c =
           (case transportWrite e (frameHeader (length data - 4) (Sequence c) @ drop 4 data) of
              Some err \<Rightarrow> Inl err
            | None \<Rightarrow>
                Inr (c\<lparr>Sequence := Sequence c + 1,
                       wire := wire c @ [Wrote (frameHeader (length data - 4) (Sequence c) @ drop 4 data)]\<rparr>,
                     frameHeader (length data - 4) (Sequence c) @ drop 4 data))"
proof -
  have "data[0 := of_nat (length data - 4), 1 := of_nat (drop_bit 8 (length data - 4)),
             2 := of_nat (drop_bit 16 (length data - 4)), 3 := Sequence c] =
        frameHeader (length data - 4) (Sequence c) @ drop 4 data"
    unfolding frameHeader_def by (rule update_first_four [OF assms])
  then show ?thesis
    using assms unfolding WritePacket_def Let_def by (simp only: not_less [symmetric] if_False)
qed

lemma replicate_13: "replicate (13 + k) (0 :: byte) = [0, 0, 0, 0, 0, 0, 0, 0, 0, 0, 0, 0, 0] @ replicate k 0"
  by (simp add: replicate_add eval_nat_numeral)

lemma header_buffer:
  assumes "9 \<le> n"
  shows "(replicate (n + 4) 0)[4 := a0, 5 := a1, 6 := a2, 7 := a3, 8 := 0, 9 := 0, 10 := 0,
           11 := 0, 12 := b] =
         [0, 0, 0, 0, a0, a1, a2, a3, 0, 0, 0, 0, b] @ replicate (n - 9) (0 :: byte)"
proof -
  from assms obtain k where n: "n = 9 + k"
    using le_Suc_ex by blast
  have "replicate (n + 4) (0 :: byte) = [0, 0, 0, 0, 0, 0, 0, 0, 0, 0, 0, 0, 0] @ replicate k 0"
    unfolding n using replicate_13 [of k] by (simp add: add.commute)
  then show ?thesis
    by (simp add: n)
qed

lemma sslRequest_eq:
  assumes "length P = 9" and "23 \<le> m"
  shows "sslRequest e (h @ P @ replicate m 0) c =
           (if length h = 4 then
             (case transportWrite e (frameHeader 32 (Sequence c) @ P @ replicate 23 0) of
                Some err \<Rightarrow> Inl err
              | None \<Rightarrow>
                 (case tlsHandshake e of
                    Some err \<Rightarrow> Inl err
                  | None \<Rightarrow>
                     Inr (c\<lparr>Sequence := Sequence c + 1, secured := True,
                            wire := wire c @ [Wrote (frameHeader 32 (Sequence c) @ P @ replicate 23 0),
                                              TLSHandshake]\<rparr>,
                          frameHeader 32 (Sequence c) @ P @ replicate m 0)))
            else sslRequest e (h @ P @ replicate m 0) c)"
proof (cases "length h = 4")
  case False
  then show ?thesis by simp
next
  case True
  from assms(2) obtain k where m: "m = 23 + k"
    using le_Suc_ex by blast
  define D where "D = h @ P @ replicate m 0"
  have t: "take 36 D = h @ P @ replicate 23 0"
    using True assms(1) by (simp add: m D_def)
  have d: "drop 36 D = replicate k 0"
    using True assms(1) by (simp add: m D_def)
  have l: "4 \<le> length (h @ P @ replicate 23 0)"
    using True by simp
  have r: "replicate 23 0 @ replicate k 0 = replicate m (0 :: byte)"
    by (simp add: m replicate_add)
  have "sslRequest e D c =
           (case transportWrite e (frameHeader 32 (Sequence c) @ P @ replicate 23 0) of
                Some err \<Rightarrow> Inl err
              | None \<Rightarrow>
                 (case tlsHandshake e of
                    Some err \<Rightarrow> Inl err
                  | None \<Rightarrow>
                     Inr (c\<lparr>Sequence := Sequence c + 1, secured := True,
                            wire := wire c @ [Wrote (frameHeader 32 (Sequence c) @ P @ replicate 23 0),
                                              TLSHandshake]\<rparr>,
                          frameHeader 32 (Sequence c) @ P @ replicate m 0)))"
    using True assms(1) r
    unfolding sslRequest_def
    by (simp add: t d WritePacket_eq [OF l] NewConnWithTimeout_def Let_def
          split: option.splits)
  then show ?thesis
    using True by (simp add: D_def)
qed

lemma sslRequest_InrD:
  assumes "sslRequest e data c = Inr (c1, data1)" and "36 \<le> length data"
  shows "c1 = c\<lparr>Sequence := Sequence c + 1, secured := True,
                  wire := wire c @ [Wrote (frameHeader 32 (Sequence c) @ take 32 (drop 4 data)),
                                    TLSHandshake]\<rparr>"
proof -
  define H where "H = take 36 data"
  have l: "4 \<le> length H" and n: "length H - 4 = 32" and d: "drop 4 H = take 32 (drop 4 data)"
    using assms(2) by (simp_all add: H_def drop_take)
  show ?thesis
    using assms(1) unfolding sslRequest_def
    by (auto simp: H_def [symmetric] WritePacket_eq [OF l] n d NewConnWithTimeout_def Let_def
          split: option.splits)
qed

lemma writeTail_eq:
  assumes h: "length h = 4" and P: "length P = 9"
    and m: "m = 23 + (length (variableSections c auth addNull lei attrData) + pad)"
  shows "andThen (writeBody c auth addNull lei attrData (h @ P @ replicate m 0))
           (\<lambda>data. andThen (WritePacket e data c) (\<lambda>(c, data). Inr c)) =
         (case transportWrite e
                 (frameHeader (9 + m) (Sequence c) @ P @ replicate 23 0 @
                  variableSections c auth addNull lei attrData @ replicate pad 0) of
            Some err \<Rightarrow> Inl err
          | None \<Rightarrow>
              Inr (c\<lparr>Sequence := Sequence c + 1,
                     wire := wire c @
                       [Wrote (frameHeader (9 + m) (Sequence c) @ P @ replicate 23 0 @
                               variableSections c auth addNull lei attrData @ replicate pad 0)]\<rparr>))"
proof -
  define V where "V = variableSections c auth addNull lei attrData"
  define B where "B = (h @ P) @ replicate 23 0 @ V @ replicate pad 0"
  have b: "writeBody c auth addNull lei attrData (h @ P @ replicate m 0) = Inr B"
    using writeBody_layout [of "h @ P" "length V + pad" c auth addNull lei attrData pad] h P m
    by (simp add: V_def B_def)
  have l: "4 \<le> length B" and n: "length B - 4 = 9 + m" and d: "drop 4 B = P @ replicate 23 0 @ V @ replicate pad 0"
    using h P m by (simp_all add: B_def V_def)
  show ?thesis
    unfolding b V_def [symmetric]
    by (simp add: WritePacket_eq [OF l] n d split: option.splits)
qed

lemma variableSections_cong:
  "variableSections (c\<lparr>Sequence := s, secured := t, wire := w\<rparr>) auth addNull lei attrData =
   variableSections c auth addNull lei attrData"
  by (simp add: variableSections_def)

lemma writeAuthHandshake_eq:
  assumes allowed: "authPluginAllowed (authPluginName c)"
    and loc: "handshakeLocals e c = Inr (flags, auth, addNull, lei, length', attrData)"
    and coll: "GetCollationByName e (if collation c = [] then DEFAULT_COLLATION_NAME e else collation c) = Some coll"
    and full: "full = fixedSections flags coll @ variableSections c auth addNull lei attrData @
                 replicate (21 - length (authPluginName c)) 0"
  shows "writeAuthHandshake e c =
    (if tlsConfig c then
       (case transportWrite e (frameHeader 32 (Sequence c) @ fixedSections flags coll) of
          Some err \<Rightarrow> Inl err
        | None \<Rightarrow>
            (case tlsHandshake e of
               Some err \<Rightarrow> Inl err
             | None \<Rightarrow>
                 (case transportWrite e (frameHeader length' (Sequence c + 1) @ full) of
                    Some err \<Rightarrow> Inl err
                  | None \<Rightarrow>
                      Inr (c\<lparr>Sequence := Sequence c + 2, secured := True,
                             wire := wire c @
                               [Wrote (frameHeader 32 (Sequence c) @ fixedSections flags coll),
                                TLSHandshake,
                                Wrote (frameHeader length' (Sequence c + 1) @ full)]\<rparr>))))
     else
       (case transportWrite e (frameHeader length' (Sequence c) @ full) of
          Some err \<Rightarrow> Inl err
        | None \<Rightarrow>
            Inr (c\<lparr>Sequence := Sequence c + 1,
                   wire := wire c @ [Wrote (frameHeader length' (Sequence c) @ full)]\<rparr>)))"
proof -
  define N where "N = (if collation c = [] then DEFAULT_COLLATION_NAME e else collation c)"
  define V where "V = variableSections c auth addNull lei attrData"
  define pad where "pad = 21 - length (authPluginName c)"
  have len: "length' = 32 + length V + pad"
    using handshakeLocals_InrD(5) [OF loc] authPluginAllowed_length [OF allowed]
    by (simp add: V_def pad_def)
  define P :: "byte list" where
    "P = [ucast flags, ucast (drop_bit 8 flags), ucast (drop_bit 16 flags), ucast (drop_bit 24 flags),
          0, 0, 0, 0, of_int (coll AND 0xff)]"
  have P: "length P = 9" and fs: "fixedSections flags coll = P @ replicate 23 0"
    by (simp_all add: P_def fixedSections_def)
  have full': "full = P @ replicate 23 0 @ V @ replicate pad 0"
    by (simp add: full fs V_def pad_def)
  define m where "m = length' - 9"
  have m: "m = 23 + (length V + pad)" and lm: "length' = 9 + m" and m23: "23 \<le> m"
    using len by (simp_all add: m_def)
  have buf: "(replicate (length' + 4) 0)
               [4 := ucast flags, 5 := ucast (drop_bit 8 flags), 6 := ucast (drop_bit 16 flags),
                7 := ucast (drop_bit 24 flags), 8 := 0, 9 := 0, 10 := 0, 11 := 0,
                12 := of_int (coll AND 0xff)] = [0, 0, 0, 0] @ P @ replicate m 0"
    using header_buffer [of length' "ucast flags" "ucast (drop_bit 8 flags)" "ucast (drop_bit 16 flags)"
            "ucast (drop_bit 24 flags)" "of_int (coll AND 0xff)"] len
    by (simp add: P_def m_def)
  have run: "writeAuthHandshake e c =
      andThen (if tlsConfig c then sslRequest e ([0, 0, 0, 0] @ P @ replicate m 0) c
               else Inr (c, [0, 0, 0, 0] @ P @ replicate m 0))
        (\<lambda>(c, data). andThen (writeBody c auth addNull lei attrData data)
           (\<lambda>data. andThen (WritePacket e data c) (\<lambda>(c, data). Inr c)))"
    using allowed coll
    unfolding writeAuthHandshake_def loc
    by (simp add: Let_def N_def [symmetric] buf [simplified])
  have tail: "andThen (writeBody c0 auth addNull lei attrData (h @ P @ replicate m 0))
                (\<lambda>data. andThen (WritePacket e data c0) (\<lambda>(c, data). Inr c)) =
              (case transportWrite e (frameHeader length' (Sequence c0) @ full) of
                 Some err \<Rightarrow> Inl err
               | None \<Rightarrow> Inr (c0\<lparr>Sequence := Sequence c0 + 1,
                     wire := wire c0 @ [Wrote (frameHeader length' (Sequence c0) @ full)]\<rparr>))"
    if "length h = 4" and "variableSections c0 auth addNull lei attrData = V" for h c0
    unfolding lm full'
    using writeTail_eq [OF that(1) P, of m c0 auth addNull lei attrData pad e] m
    unfolding that(2) by simp
  show ?thesis
  proof (cases "tlsConfig c")
    case False
    have "writeAuthHandshake e c =
            andThen (writeBody c auth addNull lei attrData ([0, 0, 0, 0] @ P @ replicate m 0))
                (\<lambda>data. andThen (WritePacket e data c) (\<lambda>(c, data). Inr c))"
      unfolding run using False by (simp only: if_False andThen.simps prod.case)
    also note tail [of "[0, 0, 0, 0]" c]
    finally show ?thesis
      using False by (simp add: V_def)
  next
    case True
    define c1 where "c1 = c\<lparr>Sequence := Sequence c + 1, secured := True,
                            wire := wire c @ [Wrote (frameHeader 32 (Sequence c) @ P @ replicate 23 0),
                                              TLSHandshake]\<rparr>"
    have ssl: "sslRequest e ([0, 0, 0, 0] @ P @ replicate m 0) c =
           (case transportWrite e (frameHeader 32 (Sequence c) @ P @ replicate 23 0) of
                Some err \<Rightarrow> Inl err
              | None \<Rightarrow>
                 (case tlsHandshake e of
                    Some err \<Rightarrow> Inl err
                  | None \<Rightarrow> Inr (c1, frameHeader 32 (Sequence c) @ P @ replicate m 0)))"
      unfolding c1_def using sslRequest_eq [OF P m23, of e "[0, 0, 0, 0]" c] by simp
    have V1: "variableSections c1 auth addNull lei attrData = V"
      by (simp add: c1_def V_def variableSections_cong)
    have t1: "andThen (writeBody c1 auth addNull lei attrData (frameHeader 32 (Sequence c) @ P @ replicate m 0))
                (\<lambda>data. andThen (WritePacket e data c1) (\<lambda>(c, data). Inr c)) =
              (case transportWrite e (frameHeader length' (Sequence c + 1) @ full) of
                 Some err \<Rightarrow> Inl err
               | None \<Rightarrow> Inr (c\<lparr>Sequence := Sequence c + 2, secured := True,
                             wire := wire c @
                               [Wrote (frameHeader 32 (Sequence c) @ fixedSections flags coll),
                                TLSHandshake,
                                Wrote (frameHeader length' (Sequence c + 1) @ full)]\<rparr>))"
      using tail [of "frameHeader 32 (Sequence c)" c1] V1
      by (simp add: frameHeader_def c1_def fs split: option.splits)
    show ?thesis
    proof (cases "transportWrite e (frameHeader 32 (Sequence c) @ P @ replicate 23 0)")
      case (Some err)
      then show ?thesis
        unfolding run ssl using True by (simp add: fs)
    next
      case None
      note w = None
      show ?thesis
      proof (cases "tlsHandshake e")
        case (Some err)
        then show ?thesis
          unfolding run ssl using True w by (simp add: fs)
      next
        case None
        have "writeAuthHandshake e c =
                andThen (writeBody c1 auth addNull lei attrData (frameHeader 32 (Sequence c) @ P @ replicate m 0))
                  (\<lambda>data. andThen (WritePacket e data c1) (\<lambda>(c, data). Inr c))"
          unfolding run ssl w None using True by (simp only: if_True andThen.simps prod.case option.case)
        then show ?thesis
          unfolding t1 using True w None by (simp add: fs)
      qed
    qed
  qed
qed

lemma writeAuthHandshake_InrE:
  assumes ok: "writeAuthHandshake e c = Inr c'"
  obtains flags auth addNull lei length' attrData coll where
    "authPluginAllowed (authPluginName c)"
    and "handshakeLocals e c = Inr (flags, auth, addNull, lei, length', attrData)"
    and "GetCollationByName e (if collation c = [] then DEFAULT_COLLATION_NAME e else collation c) = Some coll"
    and "length' = 32 + length (variableSections c auth addNull lei attrData) + (21 - length (authPluginName c))"
    and "tlsConfig c \<Longrightarrow> tlsHandshake e = None"
    and "c' = c\<lparr>Sequence := Sequence c + (if tlsConfig c then 2 else 1),
                 secured := (secured c \<or> tlsConfig c),
                 wire := wire c @
                   (if tlsConfig c
                    then [Wrote (frameHeader 32 (Sequence c) @ fixedSections flags coll), TLSHandshake]
                    else []) @
                   [Wrote (frameHeader length' (Sequence c + (if tlsConfig c then 1 else 0)) @
                           fixedSections flags coll @
                           variableSections c auth addNull lei attrData @
                           replicate (21 - length (authPluginName c)) 0)]\<rparr>"
proof -
  have allowed: "authPluginAllowed (authPluginName c)"
    using ok by (auto simp: writeAuthHandshake_def split: if_splits)
  obtain flags auth addNull lei length' attrData where
    loc: "handshakeLocals e c = Inr (flags, auth, addNull, lei, length', attrData)"
    using ok allowed
    by (cases "handshakeLocals e c") (auto simp: writeAuthHandshake_def)
  define N where "N = (if collation c = [] then DEFAULT_COLLATION_NAME e else collation c)"
  obtain coll where coll: "GetCollationByName e N = Some coll"
    using ok allowed loc
    by (cases "GetCollationByName e N") (auto simp: writeAuthHandshake_def Let_def N_def)
  have len: "length' = 32 + length (variableSections c auth addNull lei attrData) +
               (21 - length (authPluginName c))"
    using handshakeLocals_InrD(5) [OF loc] authPluginAllowed_length [OF allowed]
    by simp
  note eq = writeAuthHandshake_eq [OF allowed loc coll [unfolded N_def] refl]
  have t: "tlsHandshake e = None" if "tlsConfig c"
    using ok that unfolding eq by (auto split: option.splits)
  have "c' = c\<lparr>Sequence := Sequence c + (if tlsConfig c then 2 else 1),
                 secured := (secured c \<or> tlsConfig c),
                 wire := wire c @
                   (if tlsConfig c
                    then [Wrote (frameHeader 32 (Sequence c) @ fixedSections flags coll), TLSHandshake]
                    else []) @
                   [Wrote (frameHeader length' (Sequence c + (if tlsConfig c then 1 else 0)) @
                           fixedSections flags coll @
                           variableSections c auth addNull lei attrData @
                           replicate (21 - length (authPluginName c)) 0)]\<rparr>"
    using ok unfolding eq by (auto split: option.splits if_splits)
  then show ?thesis
    using that [OF allowed loc coll [unfolded N_def] len t] by simp
qed

lemma last_wire_writeAuthHandshake:
  assumes loc: "handshakeLocals e c = Inr (flags, auth, addNull, lei, length', attrData)"
    and ok: "writeAuthHandshake e c = Inr c'"
  shows "\<exists>coll seq.
           last (wire c') =
             Wrote (frameHeader length' seq @ fixedSections flags coll @
                    variableSections c auth addNull lei attrData @
                    replicate (21 - length (authPluginName c)) 0)"
proof -
  from ok obtain flags0 auth0 addNull0 lei0 length0 attrData0 coll where
    loc0: "handshakeLocals e c = Inr (flags0, auth0, addNull0, lei0, length0, attrData0)"
    and c': "c' = c\<lparr>Sequence := Sequence c + (if tlsConfig c then 2 else 1),
                 secured := (secured c \<or> tlsConfig c),
                 wire := wire c @
                   (if tlsConfig c
                    then [Wrote (frameHeader 32 (Sequence c) @ fixedSections flags0 coll), TLSHandshake]
                    else []) @
                   [Wrote (frameHeader length0 (Sequence c + (if tlsConfig c then 1 else 0)) @
                           fixedSections flags0 coll @
                           variableSections c auth0 addNull0 lei0 attrData0 @
                           replicate (21 - length (authPluginName c)) 0)]\<rparr>"
    by (rule writeAuthHandshake_InrE)
  from loc loc0 have "flags0 = flags" "auth0 = auth" "addNull0 = addNull" "lei0 = lei"
    "length0 = length'" "attrData0 = attrData"
    by simp_all
  with c' show ?thesis
    by (simp del: replicate_eq_replicate) blast
qed

lemma example_long_locals:
  "handshakeLocals example_env example_long_conn =
     Inr (0x828aa05, replicate 300 0x61, True, [0xfc, 0x2c, 0x01], 363, [])"
  by (simp add: handshakeLocals_def genAuthResponse_def example_long_conn_def
        example_negotiated_def example_conn_def clientCapability_def Let_def
        AppendLengthEncodedInteger_def genAttributes_def caps_defs
        AUTH_NATIVE_PASSWORD_def AUTH_SHA256_PASSWORD_def AUTH_CACHING_SHA2_PASSWORD_def
        AUTH_CLEAR_PASSWORD_def bytes_of_def)

lemma example_negotiated_locals:
  "handshakeLocals example_env example_negotiated =
     Inr (0x808a205, replicate 20 0xaa, False, [20], 80, [])"
  by code_simp

lemma example_long_run:
  "writeAuthHandshake example_env example_long_conn =
     Inr (example_long_conn
            \<lparr>Sequence := 3, secured := True,
             wire := [Wrote (frameHeader 32 1 @ fixedSections 0x828aa05 33),
                      TLSHandshake,
                      Wrote (frameHeader 363 2 @ fixedSections 0x828aa05 33 @
                             bytes_of ''root'' @ [0] @ [0xfc, 0x2c, 0x01] @ replicate 300 0x61 @ [0] @
                             bytes_of ''sha256_password'' @ [0] @ replicate 6 0)]\<rparr>)"
proof -
  have allowed: "authPluginAllowed (authPluginName example_long_conn)"
    by code_simp
  have coll: "GetCollationByName example_env
                (if collation example_long_conn = [] then DEFAULT_COLLATION_NAME example_env
                 else collation example_long_conn) = Some 33"
    by code_simp
  have pad: "21 - length (authPluginName example_long_conn) = 6"
    by code_simp
  have c: "tlsConfig example_long_conn = True" "Sequence example_long_conn = 1"
    "wire example_long_conn = []"
    by (simp_all add: example_long_conn_def example_negotiated_def example_conn_def)
  have v: "variableSections example_long_conn (replicate 300 0x61) True [0xfc, 0x2c, 0x01] [] =
             bytes_of ''root'' @ [0] @ [0xfc, 0x2c, 0x01] @ replicate 300 0x61 @ [0] @
             bytes_of ''sha256_password'' @ [0]"
    by (simp add: variableSections_def example_long_conn_def example_negotiated_def
          example_conn_def AUTH_SHA256_PASSWORD_def CLIENT_ZSTD_COMPRESSION_ALGORITHM_def)
  have w: "transportWrite example_env p = None" for p
    by (simp add: example_env_def)
  have t: "tlsHandshake example_env = None"
    by (simp add: example_env_def)
  show ?thesis
    unfolding writeAuthHandshake_eq [OF allowed example_long_locals coll refl] v
    by (simp add: pad c w t)
qed

lemma example_negotiated_run:
  "writeAuthHandshake example_env example_negotiated =
     Inr (example_negotiated
            \<lparr>Sequence := 2,
             wire := [Wrote (frameHeader 80 1 @ fixedSections 0x808a205 33 @
                             bytes_of ''root'' @ [0] @ [20] @ replicate 20 0xaa @
                             bytes_of ''mysql_native_password'' @ [0])]\<rparr>)"
proof -
  have allowed: "authPluginAllowed (authPluginName example_negotiated)"
    by code_simp
  have coll: "GetCollationByName example_env
                (if collation example_negotiated = [] then DEFAULT_COLLATION_NAME example_env
                 else collation example_negotiated) = Some 33"
    by code_simp
  have pad: "21 - length (authPluginName example_negotiated) = 0"
    by code_simp
  have c: "tlsConfig example_negotiated = False" "Sequence example_negotiated = 1"
    "wire example_negotiated = []"
    by (simp_all add: example_negotiated_def example_conn_def)
  have v: "variableSections example_negotiated (replicate 20 0xaa) False [20] [] =
             bytes_of ''root'' @ [0] @ [20] @ replicate 20 0xaa @
             bytes_of ''mysql_native_password'' @ [0]"
    by (simp add: variableSections_def example_negotiated_def
          example_conn_def AUTH_NATIVE_PASSWORD_def CLIENT_ZSTD_COMPRESSION_ALGORITHM_def)
  have w: "transportWrite example_env p = None" for p
    by (simp add: example_env_def)
  show ?thesis
    unfolding writeAuthHandshake_eq [OF allowed example_negotiated_locals coll refl] v
    by (simp add: pad c w)
qed

lemma fixedSections_lenenc_byte:
  "bit (fixedSections flags coll ! 2) 5 \<longleftrightarrow> bit flags 21"
  by (simp add: fixedSections_def bit_simps)

lemma writeAuthHandshake_succeeds:
  assumes allowed: "authPluginAllowed (authPluginName c)"
    and loc: "handshakeLocals e c = Inr (flags, auth, addNull, lei, length', attrData)"
    and coll: "GetCollationByName e (if collation c = [] then DEFAULT_COLLATION_NAME e else collation c) = Some coll"
    and w: "\<forall>p. transportWrite e p = None"
    and t: "tlsConfig c \<longrightarrow> tlsHandshake e = None"
  shows "\<exists>c'. writeAuthHandshake e c = Inr c'"
  unfolding writeAuthHandshake_eq [OF allowed loc coll refl]
  using w t by simp

text \<open>
  C8. The length prefix of the auth response is the length-encoded integer of its length: it
  has more than one byte exactly when the response is longer than 250 bytes, and is the
  single byte of the length otherwise. The final capability flags have the bit
  CLIENT_PLUGIN_AUTH_LENENC_CLIENT_DATA exactly when the response is longer than 250 bytes,
  and so has their serialization: it is bit 5 of the third byte of the packet. The packet
  that writeAuthHandshake writes carries these flags and, after the user name, this prefix
  and the response. writeAuthHandshake does write it when the plugin is a supported one, the
  collation is known, and the transport and the TLS handshake do not fail.
\<close>

theorem lenenc_auth_response:
  assumes "handshakeLocals e c = Inr (flags, auth, addNull, lei, length', attrData)"
  shows "genAuthResponse e c (salt c) = Inr (auth, addNull) \<and>
         lei = AppendLengthEncodedInteger [] (length auth) \<and>
         (1 < length lei \<longleftrightarrow> 250 < length auth) \<and>
         (length auth \<le> 250 \<longrightarrow> lei = [of_nat (length auth)]) \<and>
         (flags AND CLIENT_PLUGIN_AUTH_LENENC_CLIENT_DATA \<noteq> 0 \<longleftrightarrow> 250 < length auth) \<and>
         (\<forall>coll. bit (fixedSections flags coll ! 2) 5 \<longleftrightarrow> 250 < length auth) \<and>
         (\<forall>c'. writeAuthHandshake e c = Inr c' \<longrightarrow>
            (\<exists>coll seq rest. last (wire c') =
               Wrote (frameHeader length' seq @ fixedSections flags coll @
                      user c @ [0] @ lei @ auth @ rest))) \<and>
         (authPluginAllowed (authPluginName c) \<and>
          (\<exists>coll. GetCollationByName e
                    (if collation c = [] then DEFAULT_COLLATION_NAME e else collation c) = Some coll) \<and>
          (\<forall>p. transportWrite e p = None) \<and> (tlsConfig c \<longrightarrow> tlsHandshake e = None) \<longrightarrow>
            (\<exists>c'. writeAuthHandshake e c = Inr c'))"
proof -
  note D = handshakeLocals_InrD [OF assms]
  have 1: "1 < length lei \<longleftrightarrow> 250 < length auth"
    using D(2) lei_gt1_iff [of "length auth"] by simp
  have 2: "lei = [of_nat (length auth)]" if "length auth \<le> 250"
    using D(2) that by (simp add: AppendLengthEncodedInteger_def)
  have b: "bit flags 21 \<longleftrightarrow> 250 < length auth"
    unfolding D(4)
    by (simp add: bit_or_iff bit_21_clientCapability caps_defs bit_simps)
  have 3: "flags AND CLIENT_PLUGIN_AUTH_LENENC_CLIENT_DATA \<noteq> 0 \<longleftrightarrow> 250 < length auth"
    unfolding lenenc_iff_bit by (rule b)
  have 4: "bit (fixedSections flags coll ! 2) 5 \<longleftrightarrow> 250 < length auth" for coll
    unfolding fixedSections_lenenc_byte by (rule b)
  have 5: "\<exists>coll seq rest. last (wire c') =
               Wrote (frameHeader length' seq @ fixedSections flags coll @
                      user c @ [0] @ lei @ auth @ rest)"
    if "writeAuthHandshake e c = Inr c'" for c'
    using last_wire_writeAuthHandshake [OF assms that]
    by (auto simp: variableSections_def)
  have 6: "\<exists>c'. writeAuthHandshake e c = Inr c'"
    if "authPluginAllowed (authPluginName c)"
      and "\<exists>coll. GetCollationByName e
                    (if collation c = [] then DEFAULT_COLLATION_NAME e else collation c) = Some coll"
      and "\<forall>p. transportWrite e p = None" and "tlsConfig c \<longrightarrow> tlsHandshake e = None"
    using that writeAuthHandshake_succeeds [OF that(1) assms] by blast
  show ?thesis
    using D(1,2) 1 2 3 4 5 6 by blast
qed

theorem lenenc_auth_response_witness:
  "handshakeLocals example_env example_long_conn =
     Inr (0x828aa05, replicate 300 0x61, True, [0xfc, 0x2c, 0x01], 363, []) \<and>
   genAuthResponse example_env example_long_conn (salt example_long_conn) =
     Inr (replicate 300 0x61, True) \<and>
   (0x828aa05 :: uint32) AND CLIENT_PLUGIN_AUTH_LENENC_CLIENT_DATA \<noteq> 0 \<and>
   take 4 (fixedSections 0x828aa05 33) = [0x05, 0xaa, 0x28, 0x08] \<and>
   writeAuthHandshake example_env example_long_conn =
     Inr (example_long_conn
            \<lparr>Sequence := 3, secured := True,
             wire := [Wrote (frameHeader 32 1 @ fixedSections 0x828aa05 33),
                      TLSHandshake,
                      Wrote (frameHeader 363 2 @ fixedSections 0x828aa05 33 @
                             bytes_of ''root'' @ [0] @ [0xfc, 0x2c, 0x01] @ replicate 300 0x61 @ [0] @
                             bytes_of ''sha256_password'' @ [0] @ replicate 6 0)]\<rparr>) \<and>
   handshakeLocals example_env example_negotiated =
     Inr (0x808a205, replicate 20 0xaa, False, [20], 80, []) \<and>
   genAuthResponse example_env example_negotiated (salt example_negotiated) =
     Inr (replicate 20 0xaa, False) \<and>
   (0x808a205 :: uint32) AND CLIENT_PLUGIN_AUTH_LENENC_CLIENT_DATA = 0 \<and>
   take 4 (fixedSections 0x808a205 33) = [0x05, 0xa2, 0x08, 0x08] \<and>
   writeAuthHandshake example_env example_negotiated =
     Inr (example_negotiated
            \<lparr>Sequence := 2,
             wire := [Wrote (frameHeader 80 1 @ fixedSections 0x808a205 33 @
                             bytes_of ''root'' @ [0] @ [20] @ replicate 20 0xaa @
                             bytes_of ''mysql_native_password'' @ [0])]\<rparr>)"
proof -
  have f: "take 4 (fixedSections 0x828aa05 33) = [0x05, 0xaa, 0x28, 0x08]"
    "take 4 (fixedSections 0x808a205 33) = [0x05, 0xa2, 0x08, 0x08]"
    by code_simp+
  from lenenc_auth_response [OF example_long_locals] lenenc_auth_response [OF example_negotiated_locals]
    example_long_locals example_negotiated_locals example_long_run example_negotiated_run f
  show ?thesis
    by simp
qed

lemma example_attrs_locals:
  "handshakeLocals example_env example_attrs_conn =
     Inr (0x818a205, replicate 20 0xaa, False, [20], 85, [4, 1, 0x61, 1, 0x62])"
  by code_simp

text \<open>
  C4. The claim is that a bit that is both requested and excluded is never in the final
  flags. It fails for the bits that are set after the exclusion has been applied: here the
  connection attributes are not empty, and bit 20 (CLIENT_CONNECT_ATTRS), requested and
  excluded, is in the flags that are computed and written.
\<close>

theorem handshake_exclusion_overridden:
  "handshakeLocals example_env example_attrs_conn =
     Inr (0x818a205, replicate 20 0xaa, False, [20], 85, [4, 1, 0x61, 1, 0x62]) \<and>
   writeAuthHandshake example_env example_attrs_conn =
     Inr (example_attrs_conn
            \<lparr>Sequence := 2,
             wire := [Wrote (frameHeader 85 1 @ fixedSections 0x818a205 33 @
                             variableSections example_attrs_conn (replicate 20 0xaa) False [20]
                               [4, 1, 0x61, 1, 0x62])]\<rparr>) \<and>
   bit (ccaps example_attrs_conn) 20 \<and> bit (clientExplicitOffCaps example_attrs_conn) 20 \<and>
   bit (0x818a205 :: uint32) 20 \<and>
   ccaps example_attrs_conn AND clientExplicitOffCaps example_attrs_conn AND 0x818a205 =
     CLIENT_CONNECT_ATTRS"
proof -
  have allowed: "authPluginAllowed (authPluginName example_attrs_conn)"
    by code_simp
  have coll: "GetCollationByName example_env
                (if collation example_attrs_conn = [] then DEFAULT_COLLATION_NAME example_env
                 else collation example_attrs_conn) = Some 33"
    by code_simp
  have pad: "21 - length (authPluginName example_attrs_conn) = 0"
    by code_simp
  have c: "tlsConfig example_attrs_conn = False" "Sequence example_attrs_conn = 1"
    "wire example_attrs_conn = []"
    by (simp_all add: example_attrs_conn_def example_negotiated_def example_conn_def)
  have w: "transportWrite example_env p = None" for p
    by (simp add: example_env_def)
  have run: "writeAuthHandshake example_env example_attrs_conn =
     Inr (example_attrs_conn
            \<lparr>Sequence := 2,
             wire := [Wrote (frameHeader 85 1 @ fixedSections 0x818a205 33 @
                             variableSections example_attrs_conn (replicate 20 0xaa) False [20]
                               [4, 1, 0x61, 1, 0x62])]\<rparr>)"
    unfolding writeAuthHandshake_eq [OF allowed example_attrs_locals coll refl]
    by (simp add: pad c w)
  have bits: "bit (ccaps example_attrs_conn) 20" "bit (clientExplicitOffCaps example_attrs_conn) 20"
    "bit (0x818a205 :: uint32) 20"
    "ccaps example_attrs_conn AND clientExplicitOffCaps example_attrs_conn AND 0x818a205 =
     CLIENT_CONNECT_ATTRS"
    by (simp_all add: example_attrs_conn_def example_negotiated_def example_conn_def
          CLIENT_CONNECT_ATTRS_def bit_simps)
  show ?thesis
    using example_attrs_locals run bits by simp
qed

text \<open>
  C4, amended. On the bits of the exclusion set, the final flags agree with the flags that
  writeAuthHandshake sets after the exclusion: the SSL bit when TLS is configured, the
  length-encoded-auth bit when the response is longer than 250 bytes, connect-with-db when
  the database name is not empty, connect-attrs when the attributes are not empty. An
  excluded bit that is not forced in this way is absent from the final flags, and these
  are the flags of the written packet.
\<close>

theorem handshake_exclusion_wins_unless_forced:
  assumes "handshakeLocals e c = Inr (flags, auth, addNull, lei, length', attrData)"
  shows "flags AND clientExplicitOffCaps c = forcedCapability c auth AND clientExplicitOffCaps c \<and>
         (\<forall>n. bit (clientExplicitOffCaps c) n \<and> \<not> bit (forcedCapability c auth) n \<longrightarrow> \<not> bit flags n) \<and>
         (\<forall>c'. writeAuthHandshake e c = Inr c' \<longrightarrow>
            (\<exists>coll seq rest. last (wire c') =
               Wrote (frameHeader length' seq @ fixedSections flags coll @ rest)))"
proof -
  have flags: "flags =
           clientCapability c OR
           (if 250 < length auth then CLIENT_PLUGIN_AUTH_LENENC_CLIENT_DATA else 0) OR
           (if db c \<noteq> [] then CLIENT_CONNECT_WITH_DB else 0) OR
           (if attributes c \<noteq> [] then CLIENT_CONNECT_ATTRS else 0)"
    using handshakeLocals_InrD(3,4) [OF assms] by (simp add: genAttributes_empty_iff)
  have 1: "flags AND clientExplicitOffCaps c = forcedCapability c auth AND clientExplicitOffCaps c"
    unfolding flags forcedCapability_def
    by (simp only: bit.conj_disj_distrib2 clientCapability_excluded)
  have 2: "\<not> bit flags n" if "bit (clientExplicitOffCaps c) n" "\<not> bit (forcedCapability c auth) n" for n
  proof
    assume "bit flags n"
    with that(1) have "bit (flags AND clientExplicitOffCaps c) n"
      by (simp add: bit_and_iff)
    then have "bit (forcedCapability c auth AND clientExplicitOffCaps c) n"
      by (simp only: 1)
    with that(2) show False
      by (simp add: bit_and_iff)
  qed
  have 3: "\<exists>coll seq rest. last (wire c') =
               Wrote (frameHeader length' seq @ fixedSections flags coll @ rest)"
    if "writeAuthHandshake e c = Inr c'" for c'
    using last_wire_writeAuthHandshake [OF assms that] by blast
  show ?thesis
    using 1 2 3 by blast
qed

theorem handshake_exclusion_wins_unless_forced_witness:
  "handshakeLocals example_env
     (example_negotiated\<lparr>ccaps := CLIENT_FOUND_ROWS, clientExplicitOffCaps := CLIENT_FOUND_ROWS\<rparr>) =
     Inr (0x808a205, replicate 20 0xaa, False, [20], 80, []) \<and>
   bit (ccaps (example_negotiated\<lparr>ccaps := CLIENT_FOUND_ROWS,
                                   clientExplicitOffCaps := CLIENT_FOUND_ROWS\<rparr>)) 1 \<and>
   bit (clientExplicitOffCaps
          (example_negotiated\<lparr>ccaps := CLIENT_FOUND_ROWS,
                              clientExplicitOffCaps := CLIENT_FOUND_ROWS\<rparr>)) 1 \<and>
   \<not> bit (forcedCapability
            (example_negotiated\<lparr>ccaps := CLIENT_FOUND_ROWS,
                                clientExplicitOffCaps := CLIENT_FOUND_ROWS\<rparr>)
            (replicate 20 0xaa)) 1 \<and>
   \<not> bit (0x808a205 :: uint32) 1"
proof -
  let ?c = "example_negotiated\<lparr>ccaps := CLIENT_FOUND_ROWS, clientExplicitOffCaps := CLIENT_FOUND_ROWS\<rparr>"
  have loc: "handshakeLocals example_env ?c = Inr (0x808a205, replicate 20 0xaa, False, [20], 80, [])"
    by code_simp
  have off: "bit (ccaps ?c) 1" "bit (clientExplicitOffCaps ?c) 1"
    by (simp_all add: CLIENT_FOUND_ROWS_def bit_simps)
  have forced: "\<not> bit (forcedCapability ?c (replicate 20 0xaa)) 1"
    by (simp add: forcedCapability_def example_negotiated_def example_conn_def)
  from handshake_exclusion_wins_unless_forced [OF loc] off forced
  have "\<not> bit (0x808a205 :: uint32) 1"
    by blast
  with loc off forced show ?thesis
    by simp
qed

text \<open>
  C1. The claim is that, for every supported plugin, the length of the packet is the sum of
  the lengths of its sections. The code counts 21 bytes for the plugin name whatever the
  name is (line 256), and writes the negotiated name (line 352): with sha256_password,
  15 bytes long, the packet announces and carries 58 bytes of payload, 6 zero bytes more
  than the 52 bytes of its sections.
\<close>

theorem writeAuthHandshake_sha256_length:
  "writeAuthHandshake example_env example_sha256_conn =
     Inr (example_sha256_conn
            \<lparr>Sequence := 2,
             wire := [Wrote (frameHeader 58 1 @
                             fixedSections 0x8a201 33 @
                             variableSections example_sha256_conn [] True [0] [] @
                             replicate 6 0)]\<rparr>) \<and>
   length (fixedSections 0x8a201 33 @ variableSections example_sha256_conn [] True [0] []) = 52"
proof -
  have allowed: "authPluginAllowed (authPluginName example_sha256_conn)"
    by code_simp
  have loc: "handshakeLocals example_env example_sha256_conn = Inr (0x8a201, [], True, [0], 58, [])"
    by code_simp
  have coll: "GetCollationByName example_env
                (if collation example_sha256_conn = [] then DEFAULT_COLLATION_NAME example_env
                 else collation example_sha256_conn) = Some 33"
    by code_simp
  have pad: "21 - length (authPluginName example_sha256_conn) = 6"
    by code_simp
  have c: "tlsConfig example_sha256_conn = False" "Sequence example_sha256_conn = 1"
    "wire example_sha256_conn = []"
    by (simp_all add: example_sha256_conn_def example_conn_def)
  have w: "transportWrite example_env p = None" for p
    by (simp add: example_env_def)
  have "length (fixedSections 0x8a201 33 @ variableSections example_sha256_conn [] True [0] []) = 52"
    by code_simp
  then show ?thesis
    unfolding writeAuthHandshake_eq [OF allowed loc coll refl]
    by (simp add: pad c w)
qed

lemma example_tls_run:
  "writeAuthHandshake example_env example_tls_conn =
     Inr (example_tls_conn
            \<lparr>Sequence := 3, secured := True,
             wire := [Wrote (frameHeader 32 1 @ fixedSections 0x808aa05 33),
                      TLSHandshake,
                      Wrote (frameHeader 80 2 @ fixedSections 0x808aa05 33 @
                             variableSections example_tls_conn (replicate 20 0xaa) False [20] [])]\<rparr>)"
proof -
  have allowed: "authPluginAllowed (authPluginName example_tls_conn)"
    by code_simp
  have loc: "handshakeLocals example_env example_tls_conn =
               Inr (0x808aa05, replicate 20 0xaa, False, [20], 80, [])"
    by code_simp
  have coll: "GetCollationByName example_env
                (if collation example_tls_conn = [] then DEFAULT_COLLATION_NAME example_env
                 else collation example_tls_conn) = Some 33"
    by code_simp
  have pad: "21 - length (authPluginName example_tls_conn) = 0"
    by code_simp
  have c: "tlsConfig example_tls_conn = True" "Sequence example_tls_conn = 1"
    "wire example_tls_conn = []"
    by (simp_all add: example_tls_conn_def example_negotiated_def example_conn_def)
  have w: "transportWrite example_env p = None" for p
    by (simp add: example_env_def)
  have t: "tlsHandshake example_env = None"
    by (simp add: example_env_def)
  show ?thesis
    unfolding writeAuthHandshake_eq [OF allowed loc coll refl]
    by (simp add: pad c w t)
qed

text \<open>
  C3. The claim is that the header-only packet has exactly 13 bytes of payload. It has 32:
  the capability flags, the max-packet-size, the collation and the 23 filler bytes.
\<close>

theorem writeAuthHandshake_ssl_request_32:
  "writeAuthHandshake example_env example_tls_conn =
     Inr (example_tls_conn
            \<lparr>Sequence := 3, secured := True,
             wire := [Wrote (frameHeader 32 1 @ fixedSections 0x808aa05 33),
                      TLSHandshake,
                      Wrote (frameHeader 80 2 @ fixedSections 0x808aa05 33 @
                             variableSections example_tls_conn (replicate 20 0xaa) False [20] [])]\<rparr>) \<and>
   length (fixedSections 0x808aa05 33) = 32 \<and>
   length (fixedSections 0x808aa05 33) \<noteq> 13"
  using example_tls_run by (simp add: fixedSections_def)

text \<open>
  C3, amended. When TLS is configured and writeAuthHandshake succeeds, it has written a
  header-only packet of 32 bytes of payload (the fixed sections), then run the TLS
  handshake, then written the full response, which starts with the same 32 bytes. The full
  response has the sequence number that follows the one of the header packet: after the
  swap of the connection (lines 304 to 321) the counter is one greater than before the
  header packet, and the connection is the secured one.
\<close>

theorem writeAuthHandshake_ssl_request:
  assumes "tlsConfig c" and "writeAuthHandshake e c = Inr c'"
  shows "\<exists>flags coll full.
           wire c' = wire c @ [Wrote (frameHeader 32 (Sequence c) @ fixedSections flags coll),
                               TLSHandshake,
                               Wrote (frameHeader (length full) (Sequence c + 1) @ full)] \<and>
           length (fixedSections flags coll) = 32 \<and>
           take 32 full = fixedSections flags coll \<and>
           Sequence c' = Sequence c + 2 \<and> secured c' \<and>
           (\<forall>data c1 data1. 36 \<le> length data \<and> sslRequest e data c = Inr (c1, data1) \<longrightarrow>
              Sequence c1 = Sequence c + 1 \<and> secured c1 \<and>
              wire c1 = wire c @ [Wrote (frameHeader 32 (Sequence c) @ take 32 (drop 4 data)),
                                  TLSHandshake])"
proof -
  from assms(2) obtain flags auth addNull lei length' attrData coll where
    len: "length' = 32 + length (variableSections c auth addNull lei attrData) +
            (21 - length (authPluginName c))"
    and c': "c' = c\<lparr>Sequence := Sequence c + (if tlsConfig c then 2 else 1),
                 secured := (secured c \<or> tlsConfig c),
                 wire := wire c @
                   (if tlsConfig c
                    then [Wrote (frameHeader 32 (Sequence c) @ fixedSections flags coll), TLSHandshake]
                    else []) @
                   [Wrote (frameHeader length' (Sequence c + (if tlsConfig c then 1 else 0)) @
                           fixedSections flags coll @
                           variableSections c auth addNull lei attrData @
                           replicate (21 - length (authPluginName c)) 0)]\<rparr>"
    by (rule writeAuthHandshake_InrE)
  define full where "full = fixedSections flags coll @ variableSections c auth addNull lei attrData @
                           replicate (21 - length (authPluginName c)) 0"
  have f: "length (fixedSections flags coll) = 32"
    by (simp add: fixedSections_def)
  have "length full = length'"
    using len f by (simp add: full_def)
  then have 1: "wire c' = wire c @ [Wrote (frameHeader 32 (Sequence c) @ fixedSections flags coll),
                               TLSHandshake,
                               Wrote (frameHeader (length full) (Sequence c + 1) @ full)]"
    and 2: "Sequence c' = Sequence c + 2" "secured c'" "take 32 full = fixedSections flags coll"
    using c' assms(1) f by (simp_all add: full_def)
  have 3: "\<forall>data c1 data1. 36 \<le> length data \<and> sslRequest e data c = Inr (c1, data1) \<longrightarrow>
              Sequence c1 = Sequence c + 1 \<and> secured c1 \<and>
              wire c1 = wire c @ [Wrote (frameHeader 32 (Sequence c) @ take 32 (drop 4 data)),
                                  TLSHandshake]"
    using sslRequest_InrD by fastforce
  show ?thesis
    apply (rule exI [where x = flags])
    apply (rule exI [where x = coll])
    apply (rule exI [where x = full])
    using 1 2 3 f apply simp
    done
qed

theorem writeAuthHandshake_ssl_request_witness:
  "tlsConfig example_tls_conn \<and>
   writeAuthHandshake example_env example_tls_conn =
     Inr (example_tls_conn
            \<lparr>Sequence := 3, secured := True,
             wire := [Wrote (frameHeader 32 1 @ fixedSections 0x808aa05 33),
                      TLSHandshake,
                      Wrote (frameHeader 80 2 @ fixedSections 0x808aa05 33 @
                             variableSections example_tls_conn (replicate 20 0xaa) False [20] [])]\<rparr>) \<and>
   (\<exists>flags coll full.
      [Wrote (frameHeader 32 1 @ fixedSections 0x808aa05 33),
       TLSHandshake,
       Wrote (frameHeader 80 2 @ fixedSections 0x808aa05 33 @
              variableSections example_tls_conn (replicate 20 0xaa) False [20] [])] =
      [Wrote (frameHeader 32 1 @ fixedSections flags coll),
       TLSHandshake,
       Wrote (frameHeader (length full) 2 @ full)] \<and>
      length (fixedSections flags coll) = 32 \<and> take 32 full = fixedSections flags coll)"
proof -
  have tls: "tlsConfig example_tls_conn"
    by (simp add: example_tls_conn_def)
  have c: "Sequence example_tls_conn = 1" "wire example_tls_conn = []"
    by (simp_all add: example_tls_conn_def example_negotiated_def example_conn_def)
  from writeAuthHandshake_ssl_request [OF tls example_tls_run] c tls example_tls_run
  show ?thesis
    by simp blast
qed

section \<open>Properties of ParseGTIDSet\<close>

text \<open>
  C9. A flavor other than "mysql" and "mariadb" gives an invalid-flavor error and no set;
  the two valid flavors give the result of their parser, unchanged.
\<close>

theorem ParseGTIDSet_dispatch:
  "(flavor \<noteq> ''mysql'' \<and> flavor \<noteq> ''mariadb'' \<longrightarrow>
      ParseGTIDSet pm pd flavor s = (None, Some (ErrInvalidFlavor flavor))) \<and>
   ParseGTIDSet pm pd ''mysql'' s = pm s \<and>
   ParseGTIDSet pm pd ''mariadb'' s = pd s"
  by (simp add: ParseGTIDSet_def MySQLFlavor_def MariaDBFlavor_def)

theorem ParseGTIDSet_dispatch_witness:
  "ParseGTIDSet (\<lambda>s. (Some (length s), None)) (\<lambda>s. (None, Some ErrMalformPacket)) ''oracle'' ''0-1-2''
     = (None, Some (ErrInvalidFlavor ''oracle'')) \<and>
   ParseGTIDSet (\<lambda>s. (Some (length s), None)) (\<lambda>s. (None, Some ErrMalformPacket)) ''mysql'' ''0-1-2''
     = (Some 5, None) \<and>
   ParseGTIDSet (\<lambda>s. (Some (length s), None)) (\<lambda>s. (None, Some ErrMalformPacket)) ''mariadb'' ''0-1-2''
     = (None, Some ErrMalformPacket)"
  using ParseGTIDSet_dispatch
          [where flavor = "''oracle''" and pm = "\<lambda>s. (Some (length s), None)"
             and pd = "\<lambda>s. (None, Some ErrMalformPacket)" and s = "''0-1-2''"]
  by simp

end
